theory Spec2Isabelle
  imports Main "HOL-Library.Sublist" "HOL-Library.Char_ord" "HOL-Library.List_Lexorder"
begin

section \<open>Strings\<close>

text \<open>
  A Python \<open>str\<close> is modelled as a \<open>string\<close>: a list of 8-bit characters, the UTF-8
  bytes of the text. Whitespace and letter case are those of ASCII; a byte above 127 has
  no case and is no whitespace. On ASCII text \<open>strip\<close> and \<open>lower\<close> are Python's
  \<open>str.strip()\<close> and \<open>str.lower()\<close>.
\<close>

definition isspace :: "char \<Rightarrow> bool" where
  "isspace c = (c \<in> set [CHR '' '', CHR 0x09, CHR 0x0A, CHR 0x0B, CHR 0x0C, CHR 0x0D,
                          CHR 0x1C, CHR 0x1D, CHR 0x1E, CHR 0x1F])"

definition strip :: "string \<Rightarrow> string" where
  "strip s = rev (dropWhile isspace (rev (dropWhile isspace s)))"

definition lower :: "char \<Rightarrow> char" where
  "lower c = (case map_of (zip ''ABCDEFGHIJKLMNOPQRSTUVWXYZ'' ''abcdefghijklmnopqrstuvwxyz'') c of
                None \<Rightarrow> c | Some d \<Rightarrow> d)"

section \<open>The spreadsheet as a DataFrame\<close>

text \<open>
  One row of the DataFrame that \<open>pd.read_excel\<close> returns, after
  \<open>df.rename(columns=COLUMN_MAP)\<close>. A cell of a text column is \<open>None\<close> when
  the spreadsheet cell is empty (pandas reads it as NaN) and \<open>Some s\<close> otherwise, with
  \<open>s\<close> what \<open>str()\<close> gives for the cell. The cell of \<open>book_id\<close> is
  \<open>Some k\<close> when \<open>int(r['book_id'])\<close> returns \<open>k\<close>, and \<open>None\<close> when it
  raises \<open>ValueError\<close> (an empty cell, a text that is no number). The record has every
  mapped column: a sheet that misses one fails in \<open>load_excel_to_df\<close> before the store
  is touched.
\<close>

record xl_row =
  book_id :: "int option"
  brand :: "string option"
  model :: "string option"
  machine_type :: "string option"
  title :: "string option"
  language :: "string option"
  edition_year :: "string option"
  location :: "string option"

type_synonym dataframe = "xl_row list"

text \<open>\<open>Series.astype(str)\<close>: NaN becomes the text \<open>nan\<close>.\<close>

definition astype_str :: "string option \<Rightarrow> string" where
  "astype_str c = (case c of None \<Rightarrow> ''nan'' | Some s \<Rightarrow> s)"

text \<open>
  The loop body of \<open>load_excel_to_df\<close> in \<open>app_one_tab_pro.py\<close> and
  \<open>kaveh_books1.py\<close>: \<open>astype(str).str.strip()\<close>, then
  \<open>replace({'nan': pd.NA})\<close>, which replaces a value that is exactly \<open>nan\<close>.
\<close>

definition clean_cell :: "string option \<Rightarrow> string option" where
  "clean_cell c = (let s = strip (astype_str c) in if s = ''nan'' then None else Some s)"

definition fillna :: "string \<Rightarrow> string option \<Rightarrow> string option" where
  "fillna v c = (case c of None \<Rightarrow> Some v | Some s \<Rightarrow> Some s)"

definition clean_row :: "xl_row \<Rightarrow> xl_row" where
  "clean_row r = r\<lparr>brand := clean_cell (brand r),
                    model := clean_cell (model r),
                    machine_type := clean_cell (machine_type r),
                    title := clean_cell (title r),
                    language := fillna ''Unknown'' (clean_cell (language r))\<rparr>"

definition load_excel_to_df :: "dataframe \<Rightarrow> dataframe" where
  "load_excel_to_df df = map clean_row df"

text \<open>
  \<open>load_excel_to_df\<close> of \<open>build_installer.py\<close>: \<open>astype('string')\<close> keeps an
  empty cell as \<open><NA>\<close>, \<open>str.strip()\<close> trims the others, and nothing replaces
  the text \<open>nan\<close>.
\<close>

definition bi_clean_cell :: "string option \<Rightarrow> string option" where
  "bi_clean_cell c = map_option strip c"

definition bi_clean_row :: "xl_row \<Rightarrow> xl_row" where
  "bi_clean_row r = r\<lparr>brand := bi_clean_cell (brand r),
                       model := bi_clean_cell (model r),
                       machine_type := bi_clean_cell (machine_type r),
                       title := bi_clean_cell (title r),
                       language := fillna ''Unknown'' (bi_clean_cell (language r))\<rparr>"

definition bi_load_excel_to_df :: "dataframe \<Rightarrow> dataframe" where
  "bi_load_excel_to_df df = map bi_clean_row df"

section \<open>The SQLite store\<close>

text \<open>
  A dimension table (\<open>id INTEGER PRIMARY KEY, name TEXT UNIQUE\<close>) is the list of its
  rows in insertion order; \<open>books\<close> is the list of the fact rows. The \<open>meta\<close> table is
  created and dropped with the others and never read or written, so it is left out.
\<close>

type_synonym dim_table = "(int \<times> string) list"

record book =
  b_id :: int
  b_book_id :: int
  b_title :: string
  b_edition_year :: "string option"
  b_location :: "string option"
  b_brand_id :: "int option"
  b_model_id :: "int option"
  b_machine_type_id :: "int option"
  b_language_id :: "int option"

record db =
  brands :: dim_table
  machine_types :: dim_table
  models :: dim_table
  languages :: dim_table
  books :: "book list"

definition empty_db :: db where
  "empty_db = \<lparr>brands = [], machine_types = [], models = [], languages = [], books = []\<rparr>"

text \<open>
  A connection: \<open>durable\<close> is the committed content of the database file, which is what
  another connection (every \<open>load_db_to_df\<close> opens its own) reads; \<open>pending\<close> is
  the content as this connection sees it, with its uncommitted writes.
\<close>

record conn =
  durable :: db
  pending :: db

definition commit :: "conn \<Rightarrow> conn" where
  "commit c = c\<lparr>durable := pending c\<rparr>"

definition rollback :: "conn \<Rightarrow> conn" where
  "rollback c = c\<lparr>pending := durable c\<rparr>"

datatype error = ValueError | IntegrityError | BindError | ReError

datatype outcome = Returned | Raised error

datatype table = Brands | MachineTypes | Models | Languages

fun tbl :: "table \<Rightarrow> db \<Rightarrow> dim_table" where
  "tbl Brands d = brands d"
| "tbl MachineTypes d = machine_types d"
| "tbl Models d = models d"
| "tbl Languages d = languages d"

fun tbl_update :: "table \<Rightarrow> dim_table \<Rightarrow> db \<Rightarrow> db" where
  "tbl_update Brands t d = d\<lparr>brands := t\<rparr>"
| "tbl_update MachineTypes t d = d\<lparr>machine_types := t\<rparr>"
| "tbl_update Models t d = d\<lparr>models := t\<rparr>"
| "tbl_update Languages t d = d\<lparr>languages := t\<rparr>"

text \<open>
  The rowid SQLite gives a row inserted without one: 1 into an empty table, otherwise
  one more than the largest in use.
\<close>

definition next_rowid :: "int list \<Rightarrow> int" where
  "next_rowid ids = (case ids of [] \<Rightarrow> 1 | i # js \<Rightarrow> fold max js i + 1)"

text \<open>\<open>INSERT OR IGNORE INTO t (name) VALUES (?)\<close>: \<open>name\<close> is UNIQUE.\<close>

definition insert_or_ignore :: "dim_table \<Rightarrow> string \<Rightarrow> dim_table" where
  "insert_or_ignore t n =
     (if n \<in> set (map snd t) then t else t @ [(next_rowid (map fst t), n)])"

text \<open>\<open>SELECT id FROM t WHERE name=?\<close> followed by \<open>fetchone()\<close>.\<close>

definition select_id :: "dim_table \<Rightarrow> string \<Rightarrow> int option" where
  "select_id t n = (case filter (\<lambda>r. snd r = n) t of [] \<Rightarrow> None | r # _ \<Rightarrow> Some (fst r))"

text \<open>
  \<open>create_schema(conn, drop)\<close>: \<open>executescript\<close> commits what is pending and runs
  outside any transaction, so the dropped and recreated (empty) tables are committed at
  once; \<open>CREATE TABLE IF NOT EXISTS\<close> leaves an existing table as it is.
\<close>

definition create_schema :: "conn \<Rightarrow> bool \<Rightarrow> conn" where
  "create_schema c dropped = commit (if dropped then c\<lparr>pending := empty_db\<rparr> else c)"

subsection \<open>\<open>get_id\<close>\<close>

type_synonym get_id_fn = "db \<Rightarrow> table \<Rightarrow> string option \<Rightarrow> int option \<times> db"

text \<open>
  \<open>get_id\<close> of \<open>app_one_tab_pro.py\<close>: only \<open>None\<close> and NaN are turned away
  (\<open>if name is None or ...\<close>).
\<close>

definition app_get_id :: get_id_fn where
  "app_get_id d t name =
     (case name of
        None \<Rightarrow> (None, d)
      | Some n \<Rightarrow>
          (let d' = tbl_update t (insert_or_ignore (tbl t d) n) d
           in (select_id (tbl t d') n, d')))"

text \<open>
  \<open>get_id\<close> of \<open>kaveh_books1.py\<close>: \<open>if not name or ...\<close> turns the empty string
  away as well.
\<close>

definition kaveh_get_id :: get_id_fn where
  "kaveh_get_id d t name =
     (case name of
        None \<Rightarrow> (None, d)
      | Some n \<Rightarrow>
          (if n = [] then (None, d)
           else (let d' = tbl_update t (insert_or_ignore (tbl t d) n) d
                 in (select_id (tbl t d') n, d'))))"

subsection \<open>\<open>populate_replace\<close> of \<open>app_one_tab_pro.py\<close> and \<open>kaveh_books1.py\<close>\<close>

text \<open>
  The two files have the same \<open>populate_replace\<close>, each calling its own \<open>get_id\<close>,
  which is the first argument here.
\<close>

definition dropna :: "'a option list \<Rightarrow> 'a list" where
  "dropna xs = [x. Some x \<leftarrow> xs]"

text \<open>\<open>Series.unique()\<close>: the distinct values in order of first appearance.\<close>

definition unique :: "'a list \<Rightarrow> 'a list" where
  "unique xs = rev (remdups (rev xs))"

definition load_dim :: "get_id_fn \<Rightarrow> table \<Rightarrow> string option list \<Rightarrow> db \<Rightarrow> db" where
  "load_dim gid t col d = fold (\<lambda>v d'. snd (gid d' t (Some v))) (sort (unique (dropna col))) d"

definition load_dims :: "get_id_fn \<Rightarrow> dataframe \<Rightarrow> db \<Rightarrow> db" where
  "load_dims gid df d =
     fold (\<lambda>(t, col) d'. load_dim gid t (map col df) d')
       [(Brands, brand), (MachineTypes, machine_type), (Models, model), (Languages, language)] d"

definition fk_ok :: "dim_table \<Rightarrow> int option \<Rightarrow> bool" where
  "fk_ok t fk = (case fk of None \<Rightarrow> True | Some i \<Rightarrow> i \<in> set (map fst t))"

text \<open>
  The plain \<open>INSERT INTO books\<close>. A title that is \<open><NA>\<close> cannot be bound as a
  parameter; \<open>book_id\<close> is UNIQUE; foreign keys are enforced
  (\<open>PRAGMA foreign_keys = ON\<close>).
\<close>

definition insert_book ::
  "db \<Rightarrow> int \<Rightarrow> string option \<Rightarrow> string option \<Rightarrow> string option \<Rightarrow>
   int option \<Rightarrow> int option \<Rightarrow> int option \<Rightarrow> int option \<Rightarrow> error + db" where
  "insert_book d k ttl ed loc brand_id model_id mtype_id lang_id =
     (case ttl of
        None \<Rightarrow> Inl BindError
      | Some t \<Rightarrow>
          if k \<in> set (map b_book_id (books d)) then Inl IntegrityError
          else if fk_ok (brands d) brand_id \<and> fk_ok (models d) model_id \<and>
                  fk_ok (machine_types d) mtype_id \<and> fk_ok (languages d) lang_id
          then Inr (d\<lparr>books := books d @
                 [\<lparr>b_id = next_rowid (map b_id (books d)), b_book_id = k, b_title = t,
                   b_edition_year = ed, b_location = loc, b_brand_id = brand_id,
                   b_model_id = model_id, b_machine_type_id = mtype_id,
                   b_language_id = lang_id\<rparr>]\<rparr>)
          else Inl IntegrityError)"

text \<open>The body of \<open>for _, r in df.iterrows()\<close>.\<close>

definition insert_row :: "get_id_fn \<Rightarrow> xl_row \<Rightarrow> db \<Rightarrow> error + db" where
  "insert_row gid r d =
     (let (brand_id, d1) = (if brand r \<noteq> None then gid d Brands (brand r) else (None, d));
          (mtype_id, d2) = (if machine_type r \<noteq> None then gid d1 MachineTypes (machine_type r)
                            else (None, d1));
          (model_id, d3) = (if model r \<noteq> None then gid d2 Models (model r) else (None, d2));
          (lang_id, d4) = (if language r \<noteq> None then gid d3 Languages (language r)
                           else (None, d3))
      in case book_id r of
           None \<Rightarrow> Inl ValueError
         | Some k \<Rightarrow> insert_book d4 k (title r) (edition_year r) (location r)
                       brand_id model_id mtype_id lang_id)"

fun insert_rows :: "get_id_fn \<Rightarrow> dataframe \<Rightarrow> db \<Rightarrow> error + db" where
  "insert_rows gid [] d = Inr d"
| "insert_rows gid (r # rs) d =
     (case insert_row gid r d of Inl e \<Rightarrow> Inl e | Inr d' \<Rightarrow> insert_rows gid rs d')"

text \<open>
  \<open>populate_replace(conn, df)\<close>. When a row raises, nothing after it runs: the second
  \<open>conn.commit()\<close> is skipped, and the book rows written so far stay uncommitted in a
  connection that the caller's \<open>except\<close> branch drops, so no reader ever sees them.
\<close>

definition populate_replace :: "get_id_fn \<Rightarrow> conn \<Rightarrow> dataframe \<Rightarrow> outcome \<times> conn" where
  "populate_replace gid c df =
     (let c1 = create_schema c True;
          c2 = commit (c1\<lparr>pending := load_dims gid df (pending c1)\<rparr>)
      in case insert_rows gid df (pending c2) of
           Inl e \<Rightarrow> (Raised e, c2)
         | Inr d \<Rightarrow> (Returned, commit (c2\<lparr>pending := d\<rparr>)))"

definition app_populate_replace :: "conn \<Rightarrow> dataframe \<Rightarrow> outcome \<times> conn" where
  "app_populate_replace = populate_replace app_get_id"

definition kaveh_populate_replace :: "conn \<Rightarrow> dataframe \<Rightarrow> outcome \<times> conn" where
  "kaveh_populate_replace = populate_replace kaveh_get_id"

subsection \<open>\<open>populate_replace\<close> of \<open>build_installer.py\<close>\<close>

text \<open>\<open>executemany("INSERT OR IGNORE INTO t (name) VALUES (?)", ...)\<close>; on an empty list it
  does nothing, as the guard \<open>if len(...) > 0\<close> has it.\<close>

definition insert_many :: "dim_table \<Rightarrow> string list \<Rightarrow> dim_table" where
  "insert_many t ns = fold (\<lambda>n t'. insert_or_ignore t' n) ns t"

definition bi_insert_dims :: "dataframe \<Rightarrow> db \<Rightarrow> db" where
  "bi_insert_dims df d =
     d\<lparr>brands := insert_many (brands d) (unique (dropna (map brand df))),
       machine_types := insert_many (machine_types d) (unique (dropna (map machine_type df))),
       models := insert_many (models d) (unique (dropna (map model df))),
       languages := insert_many (languages d) (unique (dropna (map language df)))\<rparr>"

text \<open>\<open>{row[0]: row[1] for row in cur.fetchall()}\<close> over \<open>SELECT name, id FROM t\<close>: a
  later row of the same name would replace an earlier one.\<close>

definition name_ids :: "dim_table \<Rightarrow> string \<Rightarrow> int option" where
  "name_ids t = map_of (rev (map (\<lambda>r. (snd r, fst r)) t))"

text \<open>\<open>str()\<close> of a cell of a nullable string column: \<open>str(pd.NA)\<close> is \<open><NA>\<close>.\<close>

definition na_str :: "string option \<Rightarrow> string" where
  "na_str c = (case c of None \<Rightarrow> ''<NA>'' | Some s \<Rightarrow> s)"

text \<open>One tuple of \<open>books_data\<close>.\<close>

record book_data =
  p_book_id :: int
  p_title :: string
  p_edition_year :: "string option"
  p_location :: "string option"
  p_brand_id :: "int option"
  p_model_id :: "int option"
  p_machine_type_id :: "int option"
  p_language_id :: "int option"

definition bi_book_data :: "db \<Rightarrow> xl_row \<Rightarrow> error + book_data" where
  "bi_book_data d r =
     (let brand_id = (case brand r of None \<Rightarrow> None | Some n \<Rightarrow> name_ids (brands d) n);
          mtype_id = (case machine_type r of None \<Rightarrow> None
                      | Some n \<Rightarrow> name_ids (machine_types d) n);
          model_id = (case model r of None \<Rightarrow> None | Some n \<Rightarrow> name_ids (models d) n);
          lang_id = (case language r of None \<Rightarrow> None | Some n \<Rightarrow> name_ids (languages d) n)
      in case book_id r of
           None \<Rightarrow> Inl ValueError
         | Some k \<Rightarrow> Inr \<lparr>p_book_id = k, p_title = na_str (title r),
                          p_edition_year = edition_year r, p_location = location r,
                          p_brand_id = brand_id, p_model_id = model_id,
                          p_machine_type_id = mtype_id, p_language_id = lang_id\<rparr>)"

fun bi_books_data :: "db \<Rightarrow> dataframe \<Rightarrow> error + book_data list" where
  "bi_books_data d [] = Inr []"
| "bi_books_data d (r # rs) =
     (case bi_book_data d r of
        Inl e \<Rightarrow> Inl e
      | Inr p \<Rightarrow> (case bi_books_data d rs of Inl e \<Rightarrow> Inl e | Inr ps \<Rightarrow> Inr (p # ps)))"

text \<open>
  \<open>INSERT OR REPLACE INTO books\<close>: the new rowid is taken first, the row that holds
  the same \<open>book_id\<close> is deleted, and the new row is inserted. A foreign key that does
  not resolve still fails.
\<close>

definition insert_or_replace_book :: "db \<Rightarrow> book_data \<Rightarrow> error + db" where
  "insert_or_replace_book d p =
     (if fk_ok (brands d) (p_brand_id p) \<and> fk_ok (models d) (p_model_id p) \<and>
         fk_ok (machine_types d) (p_machine_type_id p) \<and> fk_ok (languages d) (p_language_id p)
      then Inr (d\<lparr>books := filter (\<lambda>b. b_book_id b \<noteq> p_book_id p) (books d) @
             [\<lparr>b_id = next_rowid (map b_id (books d)), b_book_id = p_book_id p,
               b_title = p_title p, b_edition_year = p_edition_year p,
               b_location = p_location p, b_brand_id = p_brand_id p,
               b_model_id = p_model_id p, b_machine_type_id = p_machine_type_id p,
               b_language_id = p_language_id p\<rparr>]\<rparr>)
      else Inl IntegrityError)"

fun executemany_books :: "book_data list \<Rightarrow> db \<Rightarrow> error + db" where
  "executemany_books [] d = Inr d"
| "executemany_books (p # ps) d =
     (case insert_or_replace_book d p of Inl e \<Rightarrow> Inl e | Inr d' \<Rightarrow> executemany_books ps d')"

text \<open>The body of the \<open>try\<close> block, up to the commit.\<close>

definition bi_transaction :: "dataframe \<Rightarrow> db \<Rightarrow> error + db" where
  "bi_transaction df d =
     (let d1 = bi_insert_dims df d
      in case bi_books_data d1 df of
           Inl e \<Rightarrow> Inl e
         | Inr ps \<Rightarrow> executemany_books ps d1)"

text \<open>
  \<open>populate_replace\<close> of \<open>build_installer.py\<close>: \<open>create_schema(conn, drop=True)\<close>
  runs and commits before \<open>BEGIN TRANSACTION\<close>; the \<open>except\<close> branch rolls the
  transaction back and raises again.
\<close>

definition bi_populate_replace :: "conn \<Rightarrow> dataframe \<Rightarrow> outcome \<times> conn" where
  "bi_populate_replace c df =
     (let c1 = create_schema c True
      in case bi_transaction df (pending c1) of
           Inl e \<Rightarrow> (Raised e, rollback c1)
         | Inr d \<Rightarrow> (Returned, commit (c1\<lparr>pending := d\<rparr>)))"

section \<open>The denormalized read view\<close>

text \<open>
  A row of the DataFrame that \<open>load_db_to_df\<close> returns. A SQL NULL is \<open>None\<close>; the
  title is \<open>NOT NULL\<close> in the schema.
\<close>

record view_row =
  v_number :: int
  v_title :: string
  v_brand :: "string option"
  v_model :: "string option"
  v_machine_type :: "string option"
  v_language :: "string option"
  v_edition :: "string option"
  v_location :: "string option"

text \<open>
  \<open>LEFT JOIN t ON fk = t.id\<close>: one output per matching row of \<open>t\<close>, and one with
  a NULL name when none matches (a NULL key matches nothing).
\<close>

definition left_join :: "dim_table \<Rightarrow> int option \<Rightarrow> string option list" where
  "left_join t fk =
     (case fk of
        None \<Rightarrow> [None]
      | Some i \<Rightarrow> (case filter (\<lambda>r. fst r = i) t of
                    [] \<Rightarrow> [None]
                  | ms \<Rightarrow> map (\<lambda>r. Some (snd r)) ms))"

definition join_book :: "db \<Rightarrow> book \<Rightarrow> view_row list" where
  "join_book d b =
     [\<lparr>v_number = b_book_id b, v_title = b_title b, v_brand = br, v_model = m,
       v_machine_type = mt, v_language = lg, v_edition = b_edition_year b,
       v_location = b_location b\<rparr>.
        br \<leftarrow> left_join (brands d) (b_brand_id b),
        m \<leftarrow> left_join (models d) (b_model_id b),
        mt \<leftarrow> left_join (machine_types d) (b_machine_type_id b),
        lg \<leftarrow> left_join (languages d) (b_language_id b)]"

text \<open>\<open>load_db_to_df\<close> of \<open>app_one_tab_pro.py\<close> and \<open>kaveh_books1.py\<close>, on the
  committed content of the file.\<close>

definition load_db_to_df :: "db \<Rightarrow> view_row list" where
  "load_db_to_df d = concat (map (join_book d) (sort_key b_book_id (books d)))"

text \<open>The query of \<open>build_installer.py\<close> wraps every text column but the title in
  \<open>COALESCE(..., '')\<close>.\<close>

definition coalesce :: "string option \<Rightarrow> string option" where
  "coalesce c = (case c of None \<Rightarrow> Some [] | Some s \<Rightarrow> Some s)"

definition bi_query :: "db \<Rightarrow> view_row list" where
  "bi_query d =
     map (\<lambda>r. r\<lparr>v_brand := coalesce (v_brand r), v_model := coalesce (v_model r),
                v_machine_type := coalesce (v_machine_type r),
                v_language := coalesce (v_language r), v_edition := coalesce (v_edition r),
                v_location := coalesce (v_location r)\<rparr>)
       (load_db_to_df d)"

text \<open>
  \<open>load_db_to_df\<close> of \<open>build_installer.py\<close> is wrapped in \<open>lru_cache\<close>, keyed by the
  path: the first argument is the cache entry of the path (\<open>None\<close> before the first
  call), and a hit returns the DataFrame of the first call without reading the file.
\<close>

definition bi_load_db_to_df ::
  "view_row list option \<Rightarrow> db \<Rightarrow> view_row list \<times> view_row list option" where
  "bi_load_db_to_df cache d =
     (case cache of
        Some rows \<Rightarrow> (rows, cache)
      | None \<Rightarrow> (bi_query d, Some (bi_query d)))"

section \<open>Title search: \<open>Series.str.contains(q, case=False, na=False)\<close>\<close>

text \<open>
  \<open>str.contains\<close> is called with its default \<open>regex=True\<close>: pandas compiles the
  query with \<open>re.compile(q, re.IGNORECASE)\<close> and keeps the rows where
  \<open>pattern.search(title)\<close> finds a match. Python's \<open>re\<close> is a library outside the
  repository. It is modelled on the patterns made of ordinary characters, the dot and
  parentheses: a dot matches any character but a newline; parentheses that are balanced
  only group, and \<open>re.compile\<close> raises \<open>re.error\<close> when they are not. A pattern
  with any other special character of \<open>re\<close> (one of \<open>^ $ * + ? { } [ ] \ |\<close>) is
  outside this fragment, and the model answers \<open>Outside\<close> for it.
\<close>

datatype 'a answer = Done 'a | Fails error | Outside

datatype atom = Lit char | AnyChar

definition other_special :: "char list" where
  "other_special = [CHR ''^'', CHR ''$'', CHR ''*'', CHR ''+'', CHR ''?'', CHR ''{'', CHR ''}'',
                    CHR ''['', CHR '']'', CHR 0x5C, CHR ''|'']"

definition re_special :: "char \<Rightarrow> bool" where
  "re_special c = (c \<in> set ([CHR ''.'', CHR ''('', CHR '')''] @ other_special))"

fun balanced :: "nat \<Rightarrow> string \<Rightarrow> bool" where
  "balanced n [] = (n = 0)"
| "balanced n (c # cs) =
     (if c = CHR ''('' then balanced (Suc n) cs
      else if c = CHR '')'' then (0 < n \<and> balanced (n - 1) cs)
      else balanced n cs)"

definition to_atom :: "char \<Rightarrow> atom" where
  "to_atom c = (if c = CHR ''.'' then AnyChar else Lit c)"

definition re_compile :: "string \<Rightarrow> atom list answer" where
  "re_compile q =
     (if list_ex (\<lambda>c. c \<in> set other_special) q then Outside
      else if balanced 0 q
      then Done (map to_atom (filter (\<lambda>c. c \<noteq> CHR ''('' \<and> c \<noteq> CHR '')'') q))
      else Fails ReError)"

text \<open>Matching under \<open>re.IGNORECASE\<close>.\<close>

fun atom_matches :: "atom \<Rightarrow> char \<Rightarrow> bool" where
  "atom_matches (Lit a) c = (lower a = lower c)"
| "atom_matches AnyChar c = (c \<noteq> CHR 0x0A)"

fun match_here :: "atom list \<Rightarrow> string \<Rightarrow> bool" where
  "match_here [] s = True"
| "match_here (a # as) [] = False"
| "match_here (a # as) (c # cs) = (atom_matches a c \<and> match_here as cs)"

fun re_search :: "atom list \<Rightarrow> string \<Rightarrow> bool" where
  "re_search p [] = match_here p []"
| "re_search p (c # cs) = (match_here p (c # cs) \<or> re_search p cs)"

text \<open>The boolean mask of \<open>Series.str.contains(q, case=False, na=False)\<close> on a title: the
  pattern is compiled once, before any row is looked at.\<close>

definition str_contains :: "string \<Rightarrow> (string \<Rightarrow> bool) answer" where
  "str_contains q =
     (case re_compile q of
        Done p \<Rightarrow> Done (re_search p)
      | Fails e \<Rightarrow> Fails e
      | Outside \<Rightarrow> Outside)"

section \<open>Filtering\<close>

text \<open>The sentinel of the four select boxes, the Persian word for "all" in parentheses
  (its UTF-8 bytes).\<close>

definition all_sentinel :: string where
  "all_sentinel = [CHR ''('', CHR 0xD9, CHR 0x87, CHR 0xD9, CHR 0x85, CHR 0xD9, CHR 0x87, CHR '')'']"

record selection =
  f_brand :: string
  f_type :: string
  f_model :: string
  f_lang :: string

text \<open>\<open>df[df[col] == v]\<close>: a null name equals no value.\<close>

definition eq_filter :: "(view_row \<Rightarrow> string option) \<Rightarrow> string \<Rightarrow> view_row list \<Rightarrow> view_row list" where
  "eq_filter col v rows = filter (\<lambda>r. col r = Some v) rows"

text \<open>\<open>df[df[title].str.contains(q, case=False, na=False)]\<close>.\<close>

definition title_filter :: "string \<Rightarrow> view_row list \<Rightarrow> view_row list answer" where
  "title_filter q rows =
     (case str_contains q of
        Done m \<Rightarrow> Done (filter (\<lambda>r. m (v_title r)) rows)
      | Fails e \<Rightarrow> Fails e
      | Outside \<Rightarrow> Outside)"

text \<open>The filter block of \<open>app_one_tab_pro.py\<close>; the caption shows \<open>len(filt)\<close>.\<close>

definition app_filter :: "selection \<Rightarrow> string \<Rightarrow> view_row list \<Rightarrow> view_row list answer" where
  "app_filter sel q dfb =
     (let filt1 = (if f_brand sel \<noteq> all_sentinel then eq_filter v_brand (f_brand sel) dfb else dfb);
          filt2 = (if f_type sel \<noteq> all_sentinel then eq_filter v_machine_type (f_type sel) filt1
                   else filt1);
          filt3 = (if f_model sel \<noteq> all_sentinel then eq_filter v_model (f_model sel) filt2
                   else filt2);
          filt4 = (if f_lang sel \<noteq> all_sentinel then eq_filter v_language (f_lang sel) filt3
                   else filt3)
      in if q \<noteq> [] then title_filter q filt4 else Done filt4)"

text \<open>\<open>MainWindow.apply_filters\<close> of \<open>kaveh_books1.py\<close>: the query is stripped, an
  empty selection constrains nothing, and an empty DataFrame is left as it is.\<close>

definition kaveh_apply_filters :: "selection \<Rightarrow> string \<Rightarrow> view_row list \<Rightarrow> view_row list answer" where
  "kaveh_apply_filters sel text df_full =
     (let q = strip text
      in if df_full \<noteq> [] then
           (let df1 = (if f_brand sel \<noteq> [] \<and> f_brand sel \<noteq> all_sentinel
                       then eq_filter v_brand (f_brand sel) df_full else df_full);
                df2 = (if f_type sel \<noteq> [] \<and> f_type sel \<noteq> all_sentinel
                       then eq_filter v_machine_type (f_type sel) df1 else df1);
                df3 = (if f_model sel \<noteq> [] \<and> f_model sel \<noteq> all_sentinel
                       then eq_filter v_model (f_model sel) df2 else df2);
                df4 = (if f_lang sel \<noteq> [] \<and> f_lang sel \<noteq> all_sentinel
                       then eq_filter v_language (f_lang sel) df3 else df3)
            in if q \<noteq> [] then title_filter q df4 else Done df4)
         else Done df_full)"

text \<open>
  \<open>MainWindow._apply_filters_async\<close> of \<open>build_installer.py\<close>: a boolean mask over
  the full DataFrame, narrowed by each active filter and by the search mask. An
  exception is caught and reported in the status bar, and the table is not updated.
\<close>

definition eq_mask :: "(view_row \<Rightarrow> string option) \<Rightarrow> string \<Rightarrow> view_row \<Rightarrow> bool" where
  "eq_mask col v = (if v \<noteq> [] \<and> v \<noteq> all_sentinel then (\<lambda>r. col r = Some v) else (\<lambda>r. True))"

definition bi_apply_filters_async :: "selection \<Rightarrow> string \<Rightarrow> view_row list \<Rightarrow> view_row list answer" where
  "bi_apply_filters_async sel text df =
     (let mask = (\<lambda>r. eq_mask v_brand (f_brand sel) r \<and> eq_mask v_machine_type (f_type sel) r \<and>
                      eq_mask v_model (f_model sel) r \<and> eq_mask v_language (f_lang sel) r);
          q = strip text
      in if q \<noteq> [] then
           (case str_contains q of
              Done m \<Rightarrow> Done (filter (\<lambda>r. mask r \<and> m (v_title r)) df)
            | Fails e \<Rightarrow> Fails e
            | Outside \<Rightarrow> Outside)
         else Done (filter mask df))"

section \<open>The specification's predicates and its scenario\<close>

text \<open>"The row's title contains the query as a case-insensitive substring."\<close>

definition contains_ci :: "string \<Rightarrow> string \<Rightarrow> bool" where
  "contains_ci q t = sublist (map lower q) (map lower t)"

text \<open>"For every dimension with a non-"all" selection, the row's dimension name equals the
  selection exactly."\<close>

definition passes :: "selection \<Rightarrow> view_row \<Rightarrow> bool" where
  "passes sel r =
     ((f_brand sel \<noteq> all_sentinel \<longrightarrow> v_brand r = Some (f_brand sel)) \<and>
      (f_type sel \<noteq> all_sentinel \<longrightarrow> v_machine_type r = Some (f_type sel)) \<and>
      (f_model sel \<noteq> all_sentinel \<longrightarrow> v_model r = Some (f_model sel)) \<and>
      (f_lang sel \<noteq> all_sentinel \<longrightarrow> v_language r = Some (f_lang sel)))"

definition no_selection :: selection where
  "no_selection = \<lparr>f_brand = all_sentinel, f_type = all_sentinel, f_model = all_sentinel, f_lang = all_sentinel\<rparr>"

definition only_brand :: "string \<Rightarrow> selection" where
  "only_brand B = no_selection\<lparr>f_brand := B\<rparr>"

text \<open>The two rows of the specification's concrete scenario, as read back.\<close>

definition engine_manual :: view_row where
  "engine_manual = \<lparr>v_number = 1, v_title = ''Engine Manual'', v_brand = Some ''ABC'', v_model = None,
       v_machine_type = None, v_language = Some ''Unknown'', v_edition = None, v_location = None\<rparr>"

definition pump_guide :: view_row where
  "pump_guide = \<lparr>v_number = 2, v_title = ''Pump Guide'', v_brand = Some ''XYZ'', v_model = None,
       v_machine_type = None, v_language = Some ''English'', v_edition = None, v_location = None\<rparr>"

text \<open>The column of the DataFrame that feeds each dimension table.\<close>

definition col_of :: "table \<Rightarrow> xl_row \<Rightarrow> string option" where
  "col_of t = (case t of Brands \<Rightarrow> brand | MachineTypes \<Rightarrow> machine_type | Models \<Rightarrow> model
               | Languages \<Rightarrow> language)"

definition fresh_conn :: conn where
  "fresh_conn = \<lparr>durable = empty_db, pending = empty_db\<rparr>"

text \<open>A sheet of one row whose brand cell holds two spaces.\<close>

definition blank_brand_sheet :: dataframe where
  "blank_brand_sheet = [\<lparr>book_id = Some 1, brand = Some ''  '', model = None, machine_type = None,
      title = Some ''T'', language = None, edition_year = None, location = None\<rparr>]"

text \<open>A DataFrame of two rows with the same \<open>book_id\<close>.\<close>

definition dup_sheet :: dataframe where
  "dup_sheet = [\<lparr>book_id = Some 7, brand = Some ''ABC'', model = None, machine_type = None,
      title = Some ''A'', language = Some ''English'', edition_year = None, location = None\<rparr>,
    \<lparr>book_id = Some 7, brand = Some ''ABC'', model = None, machine_type = None,
      title = Some ''B'', language = Some ''English'', edition_year = None, location = None\<rparr>]"

text \<open>A store that holds the two books of the scenario, committed.\<close>

definition stocked_conn :: conn where
  "stocked_conn =
     (let d = \<lparr>brands = [(1, ''ABC''), (2, ''XYZ'')], machine_types = [], models = [],
               languages = [(1, ''English''), (2, ''Unknown'')],
               books = [\<lparr>b_id = 1, b_book_id = 1, b_title = ''Engine Manual'',
                         b_edition_year = None, b_location = None, b_brand_id = Some 1,
                         b_model_id = None, b_machine_type_id = None, b_language_id = Some 2\<rparr>,
                        \<lparr>b_id = 2, b_book_id = 2, b_title = ''Pump Guide'',
                         b_edition_year = None, b_location = None, b_brand_id = Some 2,
                         b_model_id = None, b_machine_type_id = None, b_language_id = Some 1\<rparr>]\<rparr>
      in \<lparr>durable = d, pending = d\<rparr>)"

text \<open>A sheet of one row whose \<open>book_id\<close> cell is no number.\<close>

definition bad_id_sheet :: dataframe where
  "bad_id_sheet = [\<lparr>book_id = None, brand = Some ''ABC'', model = None, machine_type = None,
      title = Some ''T'', language = None, edition_year = None, location = None\<rparr>]"

text \<open>The schema's \<open>id INTEGER PRIMARY KEY\<close>: no two rows of a dimension table have the
  same id.\<close>

definition primary_keys :: "db \<Rightarrow> bool" where
  "primary_keys d =
     (distinct (map fst (brands d)) \<and> distinct (map fst (machine_types d)) \<and>
      distinct (map fst (models d)) \<and> distinct (map fst (languages d)))"

text \<open>"Joined with its four dimension names (null dimension name when the foreign key is
  null)": the name that a foreign key stands for.\<close>

definition dim_name :: "dim_table \<Rightarrow> int option \<Rightarrow> string option" where
  "dim_name t fk = (case fk of None \<Rightarrow> None | Some i \<Rightarrow> map_of t i)"

definition spec_row :: "db \<Rightarrow> book \<Rightarrow> view_row" where
  "spec_row d b =
     \<lparr>v_number = b_book_id b, v_title = b_title b,
      v_brand = dim_name (brands d) (b_brand_id b),
      v_model = dim_name (models d) (b_model_id b),
      v_machine_type = dim_name (machine_types d) (b_machine_type_id b),
      v_language = dim_name (languages d) (b_language_id b),
      v_edition = b_edition_year b, v_location = b_location b\<rparr>"

text \<open>A store whose two books were inserted in descending order of \<open>book_id\<close>, one
  without a brand and one without a language.\<close>

definition two_books_db :: db where
  "two_books_db =
     \<lparr>brands = [(1, ''ABC'')], machine_types = [], models = [],
      languages = [(1, ''English'')],
      books = [\<lparr>b_id = 1, b_book_id = 2, b_title = ''Pump Guide'',
                 b_edition_year = None, b_location = None, b_brand_id = None,
                 b_model_id = None, b_machine_type_id = None, b_language_id = Some 1\<rparr>,
               \<lparr>b_id = 2, b_book_id = 1, b_title = ''Engine Manual'',
                 b_edition_year = None, b_location = None, b_brand_id = Some 1,
                 b_model_id = None, b_machine_type_id = None, b_language_id = None\<rparr>]\<rparr>"

text \<open>The same for \<open>kaveh_books1.py\<close>, where an empty selection is no selection
  either.\<close>

definition kaveh_passes :: "selection \<Rightarrow> view_row \<Rightarrow> bool" where
  "kaveh_passes sel r =
     ((f_brand sel \<noteq> [] \<and> f_brand sel \<noteq> all_sentinel \<longrightarrow> v_brand r = Some (f_brand sel)) \<and>
      (f_type sel \<noteq> [] \<and> f_type sel \<noteq> all_sentinel \<longrightarrow> v_machine_type r = Some (f_type sel)) \<and>
      (f_model sel \<noteq> [] \<and> f_model sel \<noteq> all_sentinel \<longrightarrow> v_model r = Some (f_model sel)) \<and>
      (f_lang sel \<noteq> [] \<and> f_lang sel \<noteq> all_sentinel \<longrightarrow> v_language r = Some (f_lang sel)))"

text \<open>A row whose brand name is the empty string, as \<open>app_one_tab_pro.py\<close> stores it
  for a brand cell of spaces.\<close>

definition blank_brand_book :: view_row where
  "blank_brand_book = \<lparr>v_number = 3, v_title = ''Lathe Notes'', v_brand = Some [], v_model = None,
       v_machine_type = None, v_language = Some ''Unknown'', v_edition = None, v_location = None\<rparr>"

text \<open>A sheet of one row whose brand cell holds the text \<open>nan\<close> between two spaces and
  whose model, machine type and language cells are empty.\<close>

definition nan_sheet :: dataframe where
  "nan_sheet = [\<lparr>book_id = Some 1, brand = Some '' nan '', model = None, machine_type = None,
      title = Some ''T'', language = None, edition_year = None, location = None\<rparr>]"

section \<open>Filtering: proofs\<close>

lemma balanced_no_parens:
  "CHR ''('' \<notin> set q \<Longrightarrow> CHR '')'' \<notin> set q \<Longrightarrow> balanced n q = (n = 0)"
  by (induction q arbitrary: n) auto

lemma plain_compile:
  assumes "\<forall>c\<in>set q. \<not> re_special c"
  shows "re_compile q = Done (map Lit q)"
proof -
  have other: "\<not> list_ex (\<lambda>c. c \<in> set other_special) q"
    using assms by (auto simp: list_ex_iff re_special_def)
  have lp: "CHR ''('' \<notin> set q" and rp: "CHR '')'' \<notin> set q" and dot: "CHR ''.'' \<notin> set q"
    using assms by (auto simp: re_special_def)
  have keep: "filter (\<lambda>c. c \<noteq> CHR ''('' \<and> c \<noteq> CHR '')'') q = q"
    using lp rp by (induction q) auto
  have atoms: "map to_atom q = map Lit q"
    using dot by (induction q) (auto simp: to_atom_def)
  show ?thesis
    using other by (simp add: re_compile_def balanced_no_parens [OF lp rp] keep atoms)
qed

lemma match_here_Lit: "match_here (map Lit q) t = prefix (map lower q) (map lower t)"
  by (induction q t rule: list_induct2') auto

lemma re_search_Lit: "re_search (map Lit q) t = contains_ci q t"
  unfolding contains_ci_def
  by (induction t) (auto simp: match_here_Lit sublist_Cons_right)

lemma plain_str_contains:
  "\<forall>c\<in>set q. \<not> re_special c \<Longrightarrow> str_contains q = Done (contains_ci q)"
  by (simp add: str_contains_def plain_compile re_search_Lit [abs_def])

lemma set_strip: "set (strip s) \<subseteq> set s"
  unfolding strip_def
  by (metis set_dropWhileD set_rev subsetI)

lemma eq_filter_step:
  "(if f \<noteq> all_sentinel then eq_filter col f rows else rows) =
   filter (\<lambda>r. f \<noteq> all_sentinel \<longrightarrow> col r = Some f) rows"
  by (simp add: eq_filter_def)

lemma app_filter_passes:
  "app_filter sel q rows =
     (if q \<noteq> [] then title_filter q (filter (passes sel) rows) else Done (filter (passes sel) rows))"
proof -
  have "filter (\<lambda>r. f_lang sel \<noteq> all_sentinel \<longrightarrow> v_language r = Some (f_lang sel))
          (filter (\<lambda>r. f_model sel \<noteq> all_sentinel \<longrightarrow> v_model r = Some (f_model sel))
            (filter (\<lambda>r. f_type sel \<noteq> all_sentinel \<longrightarrow> v_machine_type r = Some (f_type sel))
              (filter (\<lambda>r. f_brand sel \<noteq> all_sentinel \<longrightarrow> v_brand r = Some (f_brand sel)) rows)))
        = filter (passes sel) rows"
    unfolding filter_filter passes_def by (rule filter_cong) auto
  then show ?thesis
    unfolding app_filter_def Let_def eq_filter_step by simp
qed


text \<open>In \<open>kaveh_books1.py\<close> and \<open>build_installer.py\<close> a query of whitespace is no query.\<close>

lemma strip_blank: "\<forall>c\<in>set q. isspace c \<Longrightarrow> strip q = []"
  by (auto simp: strip_def dest: set_dropWhileD)

lemma kaveh_blank_query:
  "\<forall>c\<in>set q. isspace c \<Longrightarrow> kaveh_apply_filters sel q rows = kaveh_apply_filters sel [] rows"
  using strip_blank [of q] strip_blank [of "[]"] by (simp add: kaveh_apply_filters_def)

lemma bi_blank_query:
  "\<forall>c\<in>set q. isspace c \<Longrightarrow> bi_apply_filters_async sel q rows = bi_apply_filters_async sel [] rows"
  using strip_blank [of q] strip_blank [of "[]"] by (simp add: bi_apply_filters_async_def)

lemma kaveh_filter_step:
  "(if f \<noteq> [] \<and> f \<noteq> all_sentinel then eq_filter col f rows else rows) =
   filter (\<lambda>r. f \<noteq> [] \<and> f \<noteq> all_sentinel \<longrightarrow> col r = Some f) rows"
  by (simp add: eq_filter_def)

lemma kaveh_filter_passes:
  "kaveh_apply_filters sel text rows =
     (if rows = [] then Done []
      else if strip text \<noteq> [] then title_filter (strip text) (filter (kaveh_passes sel) rows)
      else Done (filter (kaveh_passes sel) rows))"
proof -
  have "filter (\<lambda>r. f_lang sel \<noteq> [] \<and> f_lang sel \<noteq> all_sentinel \<longrightarrow>
                  v_language r = Some (f_lang sel))
          (filter (\<lambda>r. f_model sel \<noteq> [] \<and> f_model sel \<noteq> all_sentinel \<longrightarrow>
                    v_model r = Some (f_model sel))
            (filter (\<lambda>r. f_type sel \<noteq> [] \<and> f_type sel \<noteq> all_sentinel \<longrightarrow>
                      v_machine_type r = Some (f_type sel))
              (filter (\<lambda>r. f_brand sel \<noteq> [] \<and> f_brand sel \<noteq> all_sentinel \<longrightarrow>
                        v_brand r = Some (f_brand sel)) rows)))
        = filter (kaveh_passes sel) rows"
    unfolding filter_filter kaveh_passes_def by (rule filter_cong) auto
  then show ?thesis
    unfolding kaveh_apply_filters_def Let_def kaveh_filter_step by simp
qed

text \<open>
  Claim C2 at an empty brand selection: \<open>kaveh_books1.py\<close> tests
  \<open>if f_brand and f_brand != "(...)"\<close>, so the empty string selects nothing and all
  three rows are shown, where equality with the selection keeps only the row whose
  brand name is empty.
\<close>

theorem kaveh_empty_selection_shows_all:
  "f_brand (only_brand []) \<noteq> all_sentinel \<and>
   kaveh_apply_filters (only_brand []) [] [engine_manual, pump_guide, blank_brand_book]
     = Done [engine_manual, pump_guide, blank_brand_book] \<and>
   filter (passes (only_brand [])) [engine_manual, pump_guide, blank_brand_book]
     = [blank_brand_book] \<and>
   app_filter (only_brand []) [] [engine_manual, pump_guide, blank_brand_book]
     = Done [blank_brand_book]"
  by (simp add: kaveh_apply_filters_def app_filter_def only_brand_def no_selection_def
      all_sentinel_def passes_def eq_filter_def engine_manual_def pump_guide_def
      blank_brand_book_def strip_def)

text \<open>
  Claim C2 as the code has it. The filter block of \<open>app_one_tab_pro.py\<close> keeps exactly
  the rows that pass every active dimension predicate (equality with the selected value)
  and, when a query is given, the title mask, in the order of the input; a dimension is
  active when its selection is not the sentinel. \<open>apply_filters\<close> of
  \<open>kaveh_books1.py\<close> does the same with the stripped query, a dimension being active
  when its selection is neither the sentinel nor empty. With only a brand \<open>B\<close>
  selected the output is exactly the rows whose brand name is \<open>B\<close>; the count shown is
  the length of that list.
\<close>

theorem filter_conjunction:
  "app_filter sel [] rows = Done (filter (passes sel) rows) \<and>
   (q \<noteq> [] \<and> str_contains q = Done m \<longrightarrow>
      app_filter sel q rows = Done (filter (\<lambda>r. passes sel r \<and> m (v_title r)) rows)) \<and>
   (B \<noteq> all_sentinel \<longrightarrow>
      app_filter (only_brand B) [] rows = Done (filter (\<lambda>r. v_brand r = Some B) rows)) \<and>
   (strip text = [] \<longrightarrow>
      kaveh_apply_filters sel text rows = Done (filter (kaveh_passes sel) rows)) \<and>
   (strip text \<noteq> [] \<and> str_contains (strip text) = Done m \<longrightarrow>
      kaveh_apply_filters sel text rows
        = Done (filter (\<lambda>r. kaveh_passes sel r \<and> m (v_title r)) rows)) \<and>
   (B \<noteq> [] \<and> B \<noteq> all_sentinel \<longrightarrow>
      kaveh_apply_filters (only_brand B) [] rows = Done (filter (\<lambda>r. v_brand r = Some B) rows)) \<and>
   (f_brand sel \<noteq> [] \<and> f_type sel \<noteq> [] \<and> f_model sel \<noteq> [] \<and> f_lang sel \<noteq> [] \<longrightarrow>
      kaveh_passes sel = passes sel)"
proof (intro conjI impI)
  show "app_filter sel [] rows = Done (filter (passes sel) rows)"
    by (simp add: app_filter_passes)
next
  assume "q \<noteq> [] \<and> str_contains q = Done m"
  then show "app_filter sel q rows = Done (filter (\<lambda>r. passes sel r \<and> m (v_title r)) rows)"
    by (simp add: app_filter_passes title_filter_def)
next
  assume "B \<noteq> all_sentinel"
  then have "passes (only_brand B) = (\<lambda>r. v_brand r = Some B)"
    by (auto simp: passes_def only_brand_def no_selection_def)
  then show "app_filter (only_brand B) [] rows = Done (filter (\<lambda>r. v_brand r = Some B) rows)"
    by (simp add: app_filter_passes)
next
  assume "strip text = []"
  then show "kaveh_apply_filters sel text rows = Done (filter (kaveh_passes sel) rows)"
    by (simp add: kaveh_filter_passes)
next
  assume "strip text \<noteq> [] \<and> str_contains (strip text) = Done m"
  then show "kaveh_apply_filters sel text rows
      = Done (filter (\<lambda>r. kaveh_passes sel r \<and> m (v_title r)) rows)"
    by (simp add: kaveh_filter_passes title_filter_def)
next
  assume "B \<noteq> [] \<and> B \<noteq> all_sentinel"
  then have "kaveh_passes (only_brand B) = (\<lambda>r. v_brand r = Some B)"
    by (auto simp: kaveh_passes_def only_brand_def no_selection_def)
  then show "kaveh_apply_filters (only_brand B) [] rows
      = Done (filter (\<lambda>r. v_brand r = Some B) rows)"
    by (simp add: kaveh_filter_passes strip_def)
next
  assume "f_brand sel \<noteq> [] \<and> f_type sel \<noteq> [] \<and> f_model sel \<noteq> [] \<and> f_lang sel \<noteq> []"
  then show "kaveh_passes sel = passes sel"
    by (auto simp: kaveh_passes_def passes_def)
qed

theorem filter_conjunction_witness:
  "app_filter (only_brand ''ABC'') [] [engine_manual, pump_guide, blank_brand_book]
     = Done [engine_manual] \<and>
   app_filter (only_brand ''XYZ'') ''engine'' [engine_manual, pump_guide, blank_brand_book]
     = Done [] \<and>
   kaveh_apply_filters (only_brand ''ABC'') [] [engine_manual, pump_guide, blank_brand_book]
     = Done [engine_manual] \<and>
   kaveh_apply_filters no_selection '' guide '' [engine_manual, pump_guide, blank_brand_book]
     = Done [pump_guide] \<and>
   kaveh_apply_filters (only_brand []) ''  '' [engine_manual, pump_guide, blank_brand_book]
     = Done [engine_manual, pump_guide, blank_brand_book]"
proof -
  let ?rows = "[engine_manual, pump_guide, blank_brand_book]"
  have abc: "''ABC'' \<noteq> [] \<and> ''ABC'' \<noteq> all_sentinel"
    by (simp add: all_sentinel_def)
  have m: "''engine'' \<noteq> [] \<and> str_contains ''engine'' = Done (contains_ci ''engine'')"
    by (simp add: plain_str_contains re_special_def other_special_def)
  have s: "strip '' guide '' = ''guide''" "strip ''  '' = []"
    by (simp_all add: strip_def isspace_def)
  have g: "strip '' guide '' \<noteq> [] \<and>
      str_contains (strip '' guide '') = Done (contains_ci ''guide'')"
    unfolding s by (simp add: plain_str_contains re_special_def other_special_def)
  have 1: "app_filter (only_brand ''ABC'') [] ?rows
             = Done (filter (\<lambda>r. v_brand r = Some ''ABC'') ?rows)"
    using filter_conjunction [of _ _ _ _ "''ABC''"] abc by blast
  have 2: "app_filter (only_brand ''XYZ'') ''engine'' ?rows
             = Done (filter (\<lambda>r. passes (only_brand ''XYZ'') r \<and>
                  contains_ci ''engine'' (v_title r)) ?rows)"
    using filter_conjunction [of "only_brand ''XYZ''" _ "''engine''"] m by blast
  have 3: "kaveh_apply_filters (only_brand ''ABC'') [] ?rows
             = Done (filter (\<lambda>r. v_brand r = Some ''ABC'') ?rows)"
    using filter_conjunction [of _ _ _ _ "''ABC''"] abc by blast
  have 4: "kaveh_apply_filters no_selection '' guide '' ?rows
             = Done (filter (\<lambda>r. kaveh_passes no_selection r \<and>
                  contains_ci ''guide'' (v_title r)) ?rows)"
    using filter_conjunction [of no_selection _ _ _ _ "'' guide ''"] g by blast
  have 5: "kaveh_apply_filters (only_brand []) ''  '' ?rows
             = Done (filter (kaveh_passes (only_brand [])) ?rows)"
    using filter_conjunction [of "only_brand []" _ _ _ _ "''  ''"] s(2) by blast
  show ?thesis
    unfolding 1 2 3 4 5
    by (simp add: engine_manual_def pump_guide_def blank_brand_book_def passes_def
        kaveh_passes_def only_brand_def no_selection_def all_sentinel_def contains_ci_def
        lower_def sublist_Cons_right)
qed

text \<open>
  Claim C3, as stated, fails: the query is a regular expression. The query \<open>.\<close> keeps a
  title that holds no dot, the query \<open>(\<close> makes the filter fail, and
  \<open>build_installer.py\<close> searches for the stripped query.
\<close>

theorem title_query_is_regex_counterexample:
  "app_filter no_selection ''.'' [engine_manual] = Done [engine_manual] \<and>
   \<not> contains_ci ''.'' (v_title engine_manual) \<and>
   app_filter no_selection ''('' [engine_manual] = Fails ReError \<and>
   bi_apply_filters_async no_selection ''g '' [pump_guide] = Done [pump_guide] \<and>
   \<not> contains_ci ''g '' (v_title pump_guide)"
  by (simp add: app_filter_def bi_apply_filters_async_def no_selection_def engine_manual_def
      pump_guide_def title_filter_def str_contains_def re_compile_def other_special_def
      to_atom_def all_sentinel_def contains_ci_def lower_def sublist_Cons_right eq_mask_def
      strip_def isspace_def)

text \<open>
  Claim C3, amended. For a query with no special character of \<open>re\<close> the filter does
  not fail: \<open>app_one_tab_pro.py\<close> returns exactly the rows whose title contains the
  query, ignoring case, and \<open>build_installer.py\<close> those whose title contains the
  stripped query.
\<close>

theorem plain_title_query:
  assumes "\<forall>c\<in>set q. \<not> re_special c"
  shows "(q \<noteq> [] \<longrightarrow>
            app_filter no_selection q rows = Done (filter (\<lambda>r. contains_ci q (v_title r)) rows)) \<and>
         (strip q \<noteq> [] \<longrightarrow>
            bi_apply_filters_async no_selection q rows =
              Done (filter (\<lambda>r. contains_ci (strip q) (v_title r)) rows))"
proof (intro conjI impI)
  have none: "passes no_selection = (\<lambda>r. True)"
    by (auto simp: passes_def no_selection_def)
  assume "q \<noteq> []"
  then show "app_filter no_selection q rows = Done (filter (\<lambda>r. contains_ci q (v_title r)) rows)"
    using assms by (simp add: app_filter_passes none title_filter_def plain_str_contains)
next
  assume ne: "strip q \<noteq> []"
  have "\<forall>c\<in>set (strip q). \<not> re_special c"
    using assms set_strip by blast
  then have "str_contains (strip q) = Done (contains_ci (strip q))"
    by (rule plain_str_contains)
  then show "bi_apply_filters_async no_selection q rows =
              Done (filter (\<lambda>r. contains_ci (strip q) (v_title r)) rows)"
    using ne by (simp add: bi_apply_filters_async_def no_selection_def eq_mask_def)
qed

theorem plain_title_query_witness:
  "app_filter no_selection ''guide'' [engine_manual, pump_guide] = Done [pump_guide] \<and>
   bi_apply_filters_async no_selection '' guide '' [engine_manual, pump_guide] = Done [pump_guide]"
proof -
  have p1: "\<forall>c\<in>set ''guide''. \<not> re_special c"
    by (simp add: re_special_def other_special_def)
  have p2: "\<forall>c\<in>set '' guide ''. \<not> re_special c"
    by (simp add: re_special_def other_special_def)
  have s: "strip '' guide '' = ''guide''"
    by (simp add: strip_def isspace_def)
  have 1: "app_filter no_selection ''guide'' [engine_manual, pump_guide]
             = Done (filter (\<lambda>r. contains_ci ''guide'' (v_title r)) [engine_manual, pump_guide])"
    using plain_title_query [OF p1] by blast
  have 2: "bi_apply_filters_async no_selection '' guide '' [engine_manual, pump_guide]
             = Done (filter (\<lambda>r. contains_ci ''guide'' (v_title r)) [engine_manual, pump_guide])"
    using plain_title_query [OF p2, of "[engine_manual, pump_guide]"] s by simp
  show ?thesis
    unfolding 1 2
    by (simp add: engine_manual_def pump_guide_def contains_ci_def lower_def sublist_Cons_right)
qed

text \<open>
  Claim C8 at a query of two spaces: \<open>app_one_tab_pro.py\<close> does not strip the query
  and searches for the two spaces, so it shows nothing, where no query shows both rows;
  \<open>kaveh_books1.py\<close> strips it and shows both.
\<close>

theorem app_blank_query_not_ignored:
  "app_filter no_selection ''  '' [engine_manual, pump_guide] = Done [] \<and>
   app_filter no_selection [] [engine_manual, pump_guide] = Done [engine_manual, pump_guide] \<and>
   kaveh_apply_filters no_selection ''  '' [engine_manual, pump_guide] = Done [engine_manual, pump_guide]"
  by (simp add: app_filter_def kaveh_apply_filters_def no_selection_def engine_manual_def
      pump_guide_def title_filter_def str_contains_def re_compile_def other_special_def
      to_atom_def all_sentinel_def lower_def strip_def isspace_def)

section \<open>The store: proofs\<close>

lemma tbl_tbl_update [simp]: "tbl t (tbl_update t x d) = x"
  by (cases t) simp_all

lemma tbl_tbl_update_other [simp]: "t' \<noteq> t \<Longrightarrow> tbl t' (tbl_update t x d) = tbl t' d"
  by (cases t; cases t') simp_all

lemma books_tbl_update [simp]: "books (tbl_update t x d) = books d"
  by (cases t) simp_all

lemma fold_max_ge_init: "(i::int) \<le> fold max js i"
proof (induction js arbitrary: i)
  case Nil
  show ?case by simp
next
  case (Cons x xs)
  have "i \<le> max x i" by simp
  also have "\<dots> \<le> fold max xs (max x i)" by (rule Cons.IH)
  finally show ?case by simp
qed

lemma fold_max_ge_elem: "j \<in> set js \<Longrightarrow> (j::int) \<le> fold max js i"
proof (induction js arbitrary: i)
  case Nil
  then show ?case by simp
next
  case (Cons x xs)
  show ?case
  proof (cases "j = x")
    case True
    have "j \<le> max x i" using True by simp
    also have "\<dots> \<le> fold max xs (max x i)" by (rule fold_max_ge_init)
    finally show ?thesis by simp
  next
    case False
    then have "j \<in> set xs" using Cons.prems by simp
    then show ?thesis using Cons.IH by simp
  qed
qed

lemma next_rowid_greater: "j \<in> set ids \<Longrightarrow> j < next_rowid ids"
proof (cases ids)
  case Nil
  then show "j \<in> set ids \<Longrightarrow> ?thesis" by simp
next
  case (Cons i js)
  assume "j \<in> set ids"
  then have "j \<le> fold max js i"
    using Cons fold_max_ge_init [of i js] fold_max_ge_elem [of j js i] by auto
  then show ?thesis
    using Cons by (simp add: next_rowid_def)
qed

lemma names_insert_or_ignore [simp]:
  "snd ` set (insert_or_ignore t n) = insert n (snd ` set t)"
  by (auto simp: insert_or_ignore_def)

lemma distinct_insert_or_ignore:
  "distinct (map fst t) \<Longrightarrow> distinct (map snd t) \<Longrightarrow>
   distinct (map fst (insert_or_ignore t n)) \<and> distinct (map snd (insert_or_ignore t n))"
  using next_rowid_greater [of _ "map fst t"] by (auto simp: insert_or_ignore_def)

lemma insert_or_ignore_present: "n \<in> snd ` set t \<Longrightarrow> insert_or_ignore t n = t"
  by (auto simp: insert_or_ignore_def)

lemma books_app_get_id [simp]: "books (snd (app_get_id d t name)) = books d"
  by (simp add: app_get_id_def Let_def split: option.split)

lemma books_kaveh_get_id [simp]: "books (snd (kaveh_get_id d t name)) = books d"
  by (simp add: kaveh_get_id_def Let_def split: option.split)

text \<open>
  Claim C6 at a whitespace-only brand cell: the cell is cleaned to the empty string, which
  \<open>get_id\<close> of \<open>app_one_tab_pro.py\<close> inserts as a brand named \<open>''\<close> and gives the
  book as its foreign key; \<open>get_id\<close> of \<open>kaveh_books1.py\<close> returns no id for it and
  creates no row.
\<close>

theorem app_blank_brand_row:
  "brands (durable (snd (app_populate_replace fresh_conn (load_excel_to_df blank_brand_sheet))))
     = [(1, [])] \<and>
   map b_brand_id
     (books (durable (snd (app_populate_replace fresh_conn (load_excel_to_df blank_brand_sheet)))))
     = [Some 1] \<and>
   brands (durable (snd (kaveh_populate_replace fresh_conn (load_excel_to_df blank_brand_sheet))))
     = [] \<and>
   map b_brand_id
     (books (durable (snd (kaveh_populate_replace fresh_conn (load_excel_to_df blank_brand_sheet)))))
     = [None]"
  by (simp add: app_populate_replace_def kaveh_populate_replace_def populate_replace_def load_excel_to_df_def
     blank_brand_sheet_def fresh_conn_def kaveh_get_id_def
     clean_row_def clean_cell_def astype_str_def strip_def isspace_def fillna_def create_schema_def commit_def
     empty_db_def load_dims_def load_dim_def dropna_def unique_def app_get_id_def insert_or_ignore_def
     select_id_def next_rowid_def insert_row_def insert_book_def fk_ok_def Let_def)

section \<open>Import: proofs\<close>

lemma books_insert_book:
  "insert_book d k ttl ed loc bi mi ti li = Inr d' \<Longrightarrow>
   k \<notin> set (map b_book_id (books d)) \<and>
   (\<exists>b. b_book_id b = k \<and> books d' = books d @ [b])"
  by (auto simp: insert_book_def split: option.splits if_splits)

lemma books_insert_row:
  assumes frame: "\<And>d t n. books (snd (gid d t n)) = books d"
    and ok: "insert_row gid r d = Inr d'"
  shows "\<exists>k b. book_id r = Some k \<and> k \<notin> set (map b_book_id (books d)) \<and>
               b_book_id b = k \<and> books d' = books d @ [b]"
proof -
  obtain k where k: "book_id r = Some k"
    using ok by (cases "book_id r") (auto simp: insert_row_def Let_def case_prod_beta)
  obtain d4 bi mi ti li where
    ins: "insert_book d4 k (title r) (edition_year r) (location r) bi mi ti li = Inr d'"
    and d4: "books d4 = books d"
    using ok k by (auto simp: insert_row_def Let_def case_prod_beta frame)
  show ?thesis
    using books_insert_book [OF ins] k d4 by auto
qed

lemma books_insert_rows:
  assumes frame: "\<And>d t n. books (snd (gid d t n)) = books d"
  shows "insert_rows gid df d = Inr d' \<Longrightarrow>
         map b_book_id (books d') = map b_book_id (books d) @ map (the \<circ> book_id) df \<and>
         None \<notin> set (map book_id df) \<and>
         (distinct (map b_book_id (books d)) \<longrightarrow> distinct (map b_book_id (books d')))"
proof (induction df arbitrary: d)
  case Nil
  then show ?case by simp
next
  case (Cons r rs)
  from Cons.prems obtain d1 where
    step: "insert_row gid r d = Inr d1" and rest: "insert_rows gid rs d1 = Inr d'"
    by (auto split: sum.splits)
  from books_insert_row [OF frame step] obtain k b where
    kb: "book_id r = Some k" "k \<notin> set (map b_book_id (books d))" "b_book_id b = k"
        "books d1 = books d @ [b]"
    by blast
  have ids1: "map b_book_id (books d1) = map b_book_id (books d) @ [k]"
    using kb by simp
  have dist1: "distinct (map b_book_id (books d)) \<Longrightarrow> distinct (map b_book_id (books d1))"
    using kb by simp
  from Cons.IH [OF rest] have
    ih1: "map b_book_id (books d') = map b_book_id (books d1) @ map (the \<circ> book_id) rs"
    and ih2: "None \<notin> set (map book_id rs)"
    and ih3: "distinct (map b_book_id (books d1)) \<longrightarrow> distinct (map b_book_id (books d'))"
    by blast+
  show ?case
    using ih1 ih2 ih3 ids1 dist1 kb(1) by simp
qed

lemma books_load_dim:
  assumes frame: "\<And>d t n. books (snd (gid d t n)) = books d"
  shows "books (load_dim gid t col d) = books d"
proof -
  have "books (fold (\<lambda>v d'. snd (gid d' t (Some v))) vs d) = books d" for vs
    by (induction vs arbitrary: d) (simp_all add: frame)
  then show ?thesis
    by (simp add: load_dim_def)
qed

lemma books_load_dims:
  assumes frame: "\<And>d t n. books (snd (gid d t n)) = books d"
  shows "books (load_dims gid df d) = books d"
  by (simp add: load_dims_def books_load_dim [OF frame])

lemma populate_replace_raised:
  "fst (populate_replace gid c df) = Raised e \<Longrightarrow>
   durable (snd (populate_replace gid c df)) = load_dims gid df empty_db"
  by (auto simp: populate_replace_def Let_def create_schema_def commit_def split: sum.splits)

lemma populate_replace_book_ids:
  assumes frame: "\<And>d t n. books (snd (gid d t n)) = books d"
  shows "(fst (populate_replace gid c df) = Returned \<longrightarrow>
            map b_book_id (books (durable (snd (populate_replace gid c df))))
              = map (the \<circ> book_id) df \<and>
            None \<notin> set (map book_id df) \<and>
            distinct (map (the \<circ> book_id) df)) \<and>
         (fst (populate_replace gid c df) \<noteq> Returned \<longrightarrow>
            books (durable (snd (populate_replace gid c df))) = [])"
proof (cases "insert_rows gid df (load_dims gid df empty_db)")
  case (Inl e)
  then show ?thesis
    by (simp add: populate_replace_def Let_def create_schema_def commit_def
        books_load_dims [OF frame] empty_db_def)
next
  case (Inr d')
  have start: "books (load_dims gid df empty_db) = []"
    by (simp add: books_load_dims [OF frame] empty_db_def)
  note r = books_insert_rows [OF frame Inr, unfolded start]
  have e: "map b_book_id (books d') = map (the \<circ> book_id) df"
    using r by simp
  have n: "None \<notin> set (map book_id df)"
    using r by simp
  from r [THEN conjunct2, THEN conjunct2] have "distinct (map b_book_id (books d'))"
    by simp
  then have "distinct (map (the \<circ> book_id) df)"
    unfolding e .
  with e n show ?thesis
    using Inr by (simp add: populate_replace_def Let_def create_schema_def commit_def)
qed

lemma books_data_ids:
  "bi_books_data d df = Inr ps \<Longrightarrow>
   map p_book_id ps = map (the \<circ> book_id) df \<and> None \<notin> set (map book_id df)"
proof (induction df arbitrary: ps)
  case Nil
  then show ?case by simp
next
  case (Cons r rs)
  from Cons.prems obtain p qs where
    p: "bi_book_data d r = Inr p" and qs: "bi_books_data d rs = Inr qs" and ps: "ps = p # qs"
    by (auto split: sum.splits)
  from p obtain k where "book_id r = Some k" "p_book_id p = k"
    by (cases "book_id r") (auto simp: bi_book_data_def Let_def)
  with Cons.IH [OF qs] ps show ?case
    by simp
qed

lemma insert_or_replace_ids:
  assumes "insert_or_replace_book d p = Inr d'"
  shows "set (map b_book_id (books d')) = insert (p_book_id p) (set (map b_book_id (books d)))"
    and "distinct (map b_book_id (books d)) \<Longrightarrow> distinct (map b_book_id (books d'))"
proof -
  have b: "books d' = filter (\<lambda>b. b_book_id b \<noteq> p_book_id p) (books d) @
      [\<lparr>b_id = next_rowid (map b_id (books d)), b_book_id = p_book_id p,
        b_title = p_title p, b_edition_year = p_edition_year p,
        b_location = p_location p, b_brand_id = p_brand_id p,
        b_model_id = p_model_id p, b_machine_type_id = p_machine_type_id p,
        b_language_id = p_language_id p\<rparr>]"
    using assms by (auto simp: insert_or_replace_book_def split: if_splits)
  show "set (map b_book_id (books d')) = insert (p_book_id p) (set (map b_book_id (books d)))"
    unfolding b by auto
  show "distinct (map b_book_id (books d)) \<Longrightarrow> distinct (map b_book_id (books d'))"
    unfolding b by (auto simp: distinct_map_filter)
qed

lemma executemany_ids:
  "executemany_books ps d = Inr d' \<Longrightarrow>
   set (map b_book_id (books d')) = set (map b_book_id (books d)) \<union> set (map p_book_id ps) \<and>
   (distinct (map b_book_id (books d)) \<longrightarrow> distinct (map b_book_id (books d')))"
proof (induction ps arbitrary: d)
  case Nil
  then show ?case by simp
next
  case (Cons p ps)
  from Cons.prems obtain d1 where
    step: "insert_or_replace_book d p = Inr d1" and rest: "executemany_books ps d1 = Inr d'"
    by (auto split: sum.splits)
  show ?case
    using Cons.IH [OF rest] insert_or_replace_ids [OF step] by auto
qed

lemma bi_populate_replace_raised:
  "fst (bi_populate_replace c df) \<noteq> Returned \<Longrightarrow>
   durable (snd (bi_populate_replace c df)) = empty_db"
  by (auto simp: bi_populate_replace_def Let_def create_schema_def commit_def rollback_def
      split: sum.splits)

lemma bi_populate_replace_book_ids:
  "distinct (map b_book_id (books (durable (snd (bi_populate_replace c df))))) \<and>
   (fst (bi_populate_replace c df) = Returned \<longrightarrow>
      set (map b_book_id (books (durable (snd (bi_populate_replace c df)))))
        = set (map (the \<circ> book_id) df) \<and> None \<notin> set (map book_id df))"
proof (cases "bi_transaction df empty_db")
  case (Inl e)
  then show ?thesis
    by (simp add: bi_populate_replace_def Let_def create_schema_def commit_def rollback_def
        empty_db_def)
next
  case (Inr d')
  then obtain ps where
    ps: "bi_books_data (bi_insert_dims df empty_db) df = Inr ps" and
    ex: "executemany_books ps (bi_insert_dims df empty_db) = Inr d'"
    by (auto simp: bi_transaction_def Let_def split: sum.splits)
  have start: "books (bi_insert_dims df empty_db) = []"
    by (simp add: bi_insert_dims_def empty_db_def)
  note r = executemany_ids [OF ex, unfolded start]
  have "set (map b_book_id (books d')) = set (map (the \<circ> book_id) df)"
    using r books_data_ids [OF ps] by simp
  moreover from r [THEN conjunct2] have "distinct (map b_book_id (books d'))"
    by simp
  ultimately show ?thesis
    using Inr books_data_ids [OF ps]
    by (simp add: bi_populate_replace_def Let_def create_schema_def commit_def)
qed

lemma count_one:
  "distinct (map f xs) \<Longrightarrow> k \<in> set (map f xs) \<Longrightarrow> length (filter (\<lambda>x. f x = k) xs) = 1"
proof (induction xs)
  case Nil
  then show ?case by simp
next
  case (Cons x xs)
  show ?case
  proof (cases "f x = k")
    case True
    have "f x \<notin> f ` set xs"
      using Cons.prems(1) by simp
    then have "\<forall>y\<in>set xs. f y \<noteq> k"
      using True by blast
    then have "filter (\<lambda>x. f x = k) xs = []"
      by (simp add: filter_empty_conv)
    with True show ?thesis by simp
  next
    case False
    with Cons show ?thesis by auto
  qed
qed

text \<open>
  Claim C4: after any import, by the plain \<open>INSERT\<close> of \<open>app_one_tab_pro.py\<close> or
  by the \<open>INSERT OR REPLACE\<close> of \<open>build_installer.py\<close>, and whether it returned
  or raised, no two committed book rows have the same \<open>book_id\<close>. A DataFrame with
  a repeated \<open>book_id\<close> makes the first fail as a whole; when the second returns,
  every \<open>book_id\<close> of the DataFrame is held by exactly one book row.
\<close>

theorem book_id_unique_after_import:
  "distinct (map b_book_id (books (durable (snd (app_populate_replace c df))))) \<and>
   distinct (map b_book_id (books (durable (snd (bi_populate_replace c df))))) \<and>
   (\<not> distinct (map book_id df) \<longrightarrow> fst (app_populate_replace c df) \<noteq> Returned) \<and>
   (fst (bi_populate_replace c df) = Returned \<and> r \<in> set df \<and> book_id r = Some k \<longrightarrow>
      length (filter (\<lambda>b. b_book_id b = k)
        (books (durable (snd (bi_populate_replace c df))))) = 1)"
proof (intro conjI impI)
  note app = populate_replace_book_ids [of app_get_id c df, OF books_app_get_id,
      folded app_populate_replace_def]
  show "distinct (map b_book_id (books (durable (snd (app_populate_replace c df)))))"
    using app by (cases "fst (app_populate_replace c df) = Returned") simp_all
  show "distinct (map b_book_id (books (durable (snd (bi_populate_replace c df)))))"
    using bi_populate_replace_book_ids by blast
  show "fst (app_populate_replace c df) \<noteq> Returned" if dup: "\<not> distinct (map book_id df)"
  proof
    assume "fst (app_populate_replace c df) = Returned"
    with app have some: "None \<notin> set (map book_id df)"
      and dist: "distinct (map (the \<circ> book_id) df)"
      by simp_all
    have "map book_id df = map Some (map (the \<circ> book_id) df)"
      using some by (induction df) auto
    then have "distinct (map book_id df)"
      using dist by (simp add: distinct_map del: map_map)
    with dup show False ..
  qed
  show "length (filter (\<lambda>b. b_book_id b = k)
          (books (durable (snd (bi_populate_replace c df))))) = 1"
    if h: "fst (bi_populate_replace c df) = Returned \<and> r \<in> set df \<and> book_id r = Some k"
  proof (rule count_one)
    show "distinct (map b_book_id (books (durable (snd (bi_populate_replace c df)))))"
      using bi_populate_replace_book_ids by blast
    have "k \<in> set (map (the \<circ> book_id) df)"
      using h by force
    then show "k \<in> set (map b_book_id (books (durable (snd (bi_populate_replace c df)))))"
      using h bi_populate_replace_book_ids [of c df] by simp
  qed
qed


theorem book_id_unique_after_import_witness:
  "\<not> distinct (map book_id dup_sheet) \<and>
   fst (app_populate_replace fresh_conn dup_sheet) = Raised IntegrityError \<and>
   books (durable (snd (app_populate_replace fresh_conn dup_sheet))) = [] \<and>
   fst (bi_populate_replace fresh_conn dup_sheet) = Returned \<and>
   map b_title (books (durable (snd (bi_populate_replace fresh_conn dup_sheet)))) = [''B''] \<and>
   length (filter (\<lambda>b. b_book_id b = 7)
     (books (durable (snd (bi_populate_replace fresh_conn dup_sheet))))) = 1"
  using book_id_unique_after_import [of fresh_conn dup_sheet "hd dup_sheet" 7]
  by (simp add: app_populate_replace_def populate_replace_def bi_populate_replace_def
      bi_transaction_def bi_insert_dims_def insert_many_def bi_book_data_def name_ids_def
      na_str_def insert_or_replace_book_def rollback_def
      dup_sheet_def fresh_conn_def create_schema_def commit_def
      empty_db_def load_dims_def load_dim_def dropna_def unique_def app_get_id_def
      insert_or_ignore_def select_id_def next_rowid_def insert_row_def insert_book_def
      fk_ok_def Let_def)

lemma tbl_app_get_id:
  "tbl t' (snd (app_get_id d t (Some n))) =
     (if t' = t then insert_or_ignore (tbl t d) n else tbl t' d)"
  by (simp add: app_get_id_def Let_def)

lemma names_fold_app_get_id:
  "snd ` set (tbl t' (fold (\<lambda>v d'. snd (app_get_id d' t (Some v))) vs d)) =
     (if t' = t then snd ` set (tbl t d) \<union> set vs else snd ` set (tbl t' d))"
  by (induction vs arbitrary: d) (auto simp: tbl_app_get_id)

lemma set_unique [simp]: "set (unique xs) = set xs"
  by (simp add: unique_def)

lemma names_load_dim:
  "snd ` set (tbl t' (load_dim app_get_id t col d)) =
     (if t' = t then snd ` set (tbl t d) \<union> set (dropna col) else snd ` set (tbl t' d))"
  by (simp add: load_dim_def names_fold_app_get_id)

lemma names_load_dims:
  "snd ` set (tbl t (load_dims app_get_id df d)) =
     snd ` set (tbl t d) \<union> set (dropna (map (col_of t) df))"
  by (cases t)
    (simp_all add: load_dims_def col_of_def names_load_dim [of Brands, simplified]
      names_load_dim [of MachineTypes, simplified] names_load_dim [of Models, simplified]
      names_load_dim [of Languages, simplified])

text \<open>
  Claim C1 at a store that holds two books and a sheet whose only row has a
  \<open>book_id\<close> that is no number: the import raises in both variants, and the
  committed store is not the prior one. \<open>app_one_tab_pro.py\<close> leaves the rebuilt
  tables with the dimension names of the sheet and no book; \<open>build_installer.py\<close>
  rolls back to the rebuilt, empty tables.
\<close>

theorem failed_import_loses_prior_store:
  "fst (app_populate_replace stocked_conn (load_excel_to_df bad_id_sheet)) = Raised ValueError \<and>
   durable (snd (app_populate_replace stocked_conn (load_excel_to_df bad_id_sheet))) =
     \<lparr>brands = [(1, ''ABC'')], machine_types = [], models = [],
      languages = [(1, ''Unknown'')], books = []\<rparr> \<and>
   fst (bi_populate_replace stocked_conn (bi_load_excel_to_df bad_id_sheet)) = Raised ValueError \<and>
   durable (snd (bi_populate_replace stocked_conn (bi_load_excel_to_df bad_id_sheet))) = empty_db \<and>
   books (durable stocked_conn) \<noteq> []"
  by (simp add: app_populate_replace_def populate_replace_def bi_populate_replace_def
      bi_transaction_def bi_insert_dims_def insert_many_def bi_book_data_def name_ids_def
      na_str_def rollback_def load_excel_to_df_def bi_load_excel_to_df_def
      clean_row_def clean_cell_def bi_clean_row_def bi_clean_cell_def astype_str_def
      strip_def isspace_def fillna_def
      bad_id_sheet_def stocked_conn_def create_schema_def commit_def
      empty_db_def load_dims_def load_dim_def dropna_def unique_def app_get_id_def
      insert_or_ignore_def select_id_def next_rowid_def insert_row_def insert_book_def
      fk_ok_def Let_def)

text \<open>
  The same holds at every input. When an import raises, no book row is committed; in
  \<open>app_one_tab_pro.py\<close> each dimension table then holds exactly the names of its
  column of the new DataFrame, and in \<open>build_installer.py\<close> every table is empty.
  Neither depends on what the store held before, which is lost.
\<close>

lemma failed_import_leaves:
  "(fst (app_populate_replace c df) \<noteq> Returned \<longrightarrow>
      books (durable (snd (app_populate_replace c df))) = [] \<and>
      snd ` set (tbl t (durable (snd (app_populate_replace c df))))
        = set (dropna (map (col_of t) df))) \<and>
   (fst (bi_populate_replace c df) \<noteq> Returned \<longrightarrow>
      durable (snd (bi_populate_replace c df)) = empty_db)"
proof (intro conjI impI)
  assume f: "fst (app_populate_replace c df) \<noteq> Returned"
  then obtain e where "fst (populate_replace app_get_id c df) = Raised e"
    by (cases "fst (app_populate_replace c df)") (simp_all add: app_populate_replace_def)
  then have d: "durable (snd (app_populate_replace c df)) = load_dims app_get_id df empty_db"
    unfolding app_populate_replace_def by (rule populate_replace_raised)
  show "books (durable (snd (app_populate_replace c df))) = []"
    unfolding d by (simp add: books_load_dims empty_db_def)
  have "tbl t empty_db = []"
    by (cases t) (simp_all add: empty_db_def)
  then show "snd ` set (tbl t (durable (snd (app_populate_replace c df))))
      = set (dropna (map (col_of t) df))"
    unfolding d by (simp add: names_load_dims)
next
  assume "fst (bi_populate_replace c df) \<noteq> Returned"
  then show "durable (snd (bi_populate_replace c df)) = empty_db"
    by (rule bi_populate_replace_raised)
qed

section \<open>The read view: proofs\<close>

lemma filter_key:
  "distinct (map fst t) \<Longrightarrow>
   filter (\<lambda>r. fst r = i) t = (case map_of t i of None \<Rightarrow> [] | Some v \<Rightarrow> [(i, v)])"
proof (induction t)
  case Nil
  show ?case by simp
next
  case (Cons r t)
  show ?case
  proof (cases "fst r = i")
    case True
    then have "i \<notin> fst ` set t"
      using Cons.prems by auto
    then have "filter (\<lambda>r. fst r = i) t = []"
      by (auto simp: filter_empty_conv)
    with True show ?thesis
      by (cases r) simp
  next
    case False
    with Cons show ?thesis
      by (cases r) simp
  qed
qed

lemma left_join_key: "distinct (map fst t) \<Longrightarrow> left_join t fk = [dim_name t fk]"
  by (simp add: left_join_def dim_name_def filter_key split: option.split)

lemma join_book_keys: "primary_keys d \<Longrightarrow> join_book d b = [spec_row d b]"
  by (simp add: join_book_def primary_keys_def left_join_key spec_row_def)

lemma load_db_to_df_keys:
  "primary_keys d \<Longrightarrow> load_db_to_df d = map (spec_row d) (sort_key b_book_id (books d))"
proof -
  assume pk: "primary_keys d"
  have "concat (map (join_book d) bs) = map (spec_row d) bs" for bs
    by (induction bs) (simp_all add: join_book_keys [OF pk])
  then show ?thesis
    by (simp add: load_db_to_df_def)
qed

text \<open>
  Claim C9 at a book without a brand: the query of \<open>build_installer.py\<close> returns the
  empty string for its brand name, not null.
\<close>

theorem bi_query_blank_for_null:
  "map b_brand_id (books two_books_db) = [None, Some 1] \<and>
   map v_brand (load_db_to_df two_books_db) = [Some ''ABC'', None] \<and>
   map v_brand (fst (bi_load_db_to_df None two_books_db)) = [Some ''ABC'', Some []]"
  by (simp add: two_books_db_def load_db_to_df_def join_book_def left_join_def
      bi_load_db_to_df_def bi_query_def coalesce_def)

text \<open>
  Claim C9 as the code has it: with the primary keys of the schema, the read query
  returns one row per book, in ascending order of \<open>book_id\<close>; each row has the book's
  number and title and the names its foreign keys stand for. For a foreign key that is
  null the name is null in \<open>app_one_tab_pro.py\<close> and \<open>kaveh_books1.py\<close>, and the empty
  string in \<open>build_installer.py\<close> (on a call that is not answered from the cache).
\<close>

theorem read_query_one_row_per_book:
  "primary_keys d \<Longrightarrow>
   load_db_to_df d = map (spec_row d) (sort_key b_book_id (books d)) \<and>
   length (load_db_to_df d) = length (books d) \<and>
   sorted (map v_number (load_db_to_df d)) \<and>
   fst (bi_load_db_to_df None d) =
     map (\<lambda>b. (spec_row d b)\<lparr>v_brand := coalesce (dim_name (brands d) (b_brand_id b)),
                v_model := coalesce (dim_name (models d) (b_model_id b)),
                v_machine_type := coalesce (dim_name (machine_types d) (b_machine_type_id b)),
                v_language := coalesce (dim_name (languages d) (b_language_id b)),
                v_edition := coalesce (b_edition_year b),
                v_location := coalesce (b_location b)\<rparr>)
       (sort_key b_book_id (books d)) \<and>
   length (fst (bi_load_db_to_df None d)) = length (books d) \<and>
   sorted (map v_number (fst (bi_load_db_to_df None d)))"
proof -
  assume pk: "primary_keys d"
  note rows = load_db_to_df_keys [OF pk]
  have num: "map v_number (map (spec_row d) bs) = map b_book_id bs" for bs
    by (simp add: spec_row_def)
  have srt: "sorted (map v_number (load_db_to_df d))"
    unfolding rows num by (rule sorted_sort_key)
  have bi: "fst (bi_load_db_to_df None d) =
     map (\<lambda>b. (spec_row d b)\<lparr>v_brand := coalesce (dim_name (brands d) (b_brand_id b)),
                v_model := coalesce (dim_name (models d) (b_model_id b)),
                v_machine_type := coalesce (dim_name (machine_types d) (b_machine_type_id b)),
                v_language := coalesce (dim_name (languages d) (b_language_id b)),
                v_edition := coalesce (b_edition_year b),
                v_location := coalesce (b_location b)\<rparr>)
       (sort_key b_book_id (books d))"
    by (simp add: bi_load_db_to_df_def bi_query_def rows spec_row_def)
  have binum: "map v_number (fst (bi_load_db_to_df None d)) = map v_number (load_db_to_df d)"
    by (simp add: bi_load_db_to_df_def bi_query_def)
  have len: "length (load_db_to_df d) = length (books d)"
    unfolding rows by simp
  have bilen: "length (fst (bi_load_db_to_df None d)) = length (books d)"
    unfolding bi by simp
  have bisrt: "sorted (map v_number (fst (bi_load_db_to_df None d)))"
    unfolding binum by (rule srt)
  show ?thesis
    by (intro conjI) (rule rows len srt bi bilen bisrt)+
qed

theorem read_query_one_row_per_book_witness:
  "primary_keys two_books_db \<and>
   load_db_to_df two_books_db =
     [\<lparr>v_number = 1, v_title = ''Engine Manual'', v_brand = Some ''ABC'', v_model = None,
       v_machine_type = None, v_language = None, v_edition = None, v_location = None\<rparr>,
      \<lparr>v_number = 2, v_title = ''Pump Guide'', v_brand = None, v_model = None,
       v_machine_type = None, v_language = Some ''English'', v_edition = None,
       v_location = None\<rparr>] \<and>
   map v_language (fst (bi_load_db_to_df None two_books_db)) = [Some [], Some ''English'']"
  using read_query_one_row_per_book [of two_books_db]
  by (simp add: primary_keys_def two_books_db_def spec_row_def dim_name_def coalesce_def)

section \<open>The \<open>nan\<close> artifact: proofs\<close>

lemma set_dropna: "set (dropna xs) = {x. Some x \<in> set xs}"
  by (induction xs) (auto simp: dropna_def split: option.splits)

lemma names_app_get_id:
  "snd ` set (tbl t' (snd (app_get_id d t n))) \<subseteq>
     snd ` set (tbl t' d) \<union> (if t' = t then set_option n else {})"
  by (cases n) (auto simp: app_get_id_def Let_def)

lemma names_kaveh_get_id:
  "snd ` set (tbl t' (snd (kaveh_get_id d t n))) \<subseteq>
     snd ` set (tbl t' d) \<union> (if t' = t then set_option n else {})"
  by (cases n) (auto simp: kaveh_get_id_def Let_def)

lemma chain4:
  assumes "A4 \<subseteq> A3 \<union> X4" "A3 \<subseteq> A2 \<union> X3" "A2 \<subseteq> A1 \<union> X2" "A1 \<subseteq> A0 \<union> X1"
    and "X1 \<subseteq> X" "X2 \<subseteq> X" "X3 \<subseteq> X" "X4 \<subseteq> X"
  shows "A4 \<subseteq> A0 \<union> (X::'a set)"
proof -
  have "A2 \<subseteq> A0 \<union> X"
    using assms(3,4,5,6) by auto
  then have "A3 \<subseteq> A0 \<union> X"
    using assms(2,7) by auto
  then show ?thesis
    using assms(1,8) by auto
qed

lemma chain1: "A \<subseteq> B \<union> X \<Longrightarrow> B \<subseteq> X \<Longrightarrow> A \<subseteq> (X::'a set)"
  by blast

lemma not_in_subset: "A \<subseteq> X \<Longrightarrow> n \<notin> X \<Longrightarrow> n \<notin> (A::'a set)"
  by blast

lemma chain2: "A2 \<subseteq> A1 \<union> X2 \<Longrightarrow> A1 \<subseteq> A0 \<union> X1 \<Longrightarrow> A2 \<subseteq> A0 \<union> (X1 \<union> (X2::'a set))"
  by blast

lemma names_fold_get_id:
  assumes frame: "\<And>d t n t'. snd ` set (tbl t' (snd (gid d t n))) \<subseteq>
     snd ` set (tbl t' d) \<union> (if t' = t then set_option n else {})"
  shows "snd ` set (tbl t' (fold (\<lambda>v d'. snd (gid d' t (Some v))) vs d)) \<subseteq>
     snd ` set (tbl t' d) \<union> (if t' = t then set vs else {})"
proof (induction vs arbitrary: d)
  case Nil
  show ?case by simp
next
  case (Cons v vs)
  have step: "snd ` set (tbl t' (snd (gid d t (Some v)))) \<subseteq>
      snd ` set (tbl t' d) \<union> (if t' = t then set_option (Some v) else {})"
    by (rule frame)
  have rest: "snd ` set (tbl t' (fold (\<lambda>v d'. snd (gid d' t (Some v))) vs
        (snd (gid d t (Some v))))) \<subseteq>
      snd ` set (tbl t' (snd (gid d t (Some v)))) \<union> (if t' = t then set vs else {})"
    by (rule Cons.IH)
  show ?case
  proof (cases "t' = t")
    case True
    have 1: "snd ` set (tbl t' (snd (gid d t (Some v)))) \<subseteq> snd ` set (tbl t' d) \<union> {v}"
      using step True by simp
    have 2: "snd ` set (tbl t' (fold (\<lambda>v d'. snd (gid d' t (Some v))) vs
        (snd (gid d t (Some v))))) \<subseteq>
      snd ` set (tbl t' (snd (gid d t (Some v)))) \<union> set vs"
      using rest True by simp
    have "snd ` set (tbl t' (fold (\<lambda>v d'. snd (gid d' t (Some v))) vs
        (snd (gid d t (Some v))))) \<subseteq> snd ` set (tbl t' d) \<union> ({v} \<union> set vs)"
      by (rule chain2 [OF 2 1])
    then show ?thesis
      using True by simp
  next
    case False
    have 1: "snd ` set (tbl t' (snd (gid d t (Some v)))) \<subseteq> snd ` set (tbl t' d)"
      using step False by simp
    have 2: "snd ` set (tbl t' (fold (\<lambda>v d'. snd (gid d' t (Some v))) vs
        (snd (gid d t (Some v))))) \<subseteq>
      snd ` set (tbl t' (snd (gid d t (Some v))))"
      using rest False by simp
    have "snd ` set (tbl t' (fold (\<lambda>v d'. snd (gid d' t (Some v))) vs
        (snd (gid d t (Some v))))) \<subseteq> snd ` set (tbl t' d)"
      by (rule subset_trans [OF 2 1])
    then show ?thesis
      using False by simp
  qed
qed

lemma names_load_dim_sub:
  assumes frame: "\<And>d t n t'. snd ` set (tbl t' (snd (gid d t n))) \<subseteq>
     snd ` set (tbl t' d) \<union> (if t' = t then set_option n else {})"
  shows "snd ` set (tbl t' (load_dim gid t col d)) \<subseteq>
     snd ` set (tbl t' d) \<union> (if t' = t then set (dropna col) else {})"
proof -
  have e: "set (sort (unique (dropna col))) = set (dropna col)"
    by (simp add: unique_def)
  have "snd ` set (tbl t' (load_dim gid t col d)) \<subseteq>
      snd ` set (tbl t' d) \<union> (if t' = t then set (sort (unique (dropna col))) else {})"
    unfolding load_dim_def by (rule names_fold_get_id [OF frame])
  then show ?thesis
    unfolding e .
qed

lemma names_load_dims_sub:
  assumes frame: "\<And>d t n t'. snd ` set (tbl t' (snd (gid d t n))) \<subseteq>
     snd ` set (tbl t' d) \<union> (if t' = t then set_option n else {})"
  shows "snd ` set (tbl t (load_dims gid df d)) \<subseteq>
     snd ` set (tbl t d) \<union> set (dropna (map (col_of t) df))"
proof -
  define d1 where "d1 = load_dim gid Brands (map brand df) d"
  define d2 where "d2 = load_dim gid MachineTypes (map machine_type df) d1"
  define d3 where "d3 = load_dim gid Models (map model df) d2"
  define d4 where "d4 = load_dim gid Languages (map language df) d3"
  have all: "load_dims gid df d = d4"
    by (simp add: load_dims_def d1_def d2_def d3_def d4_def)
  have s1: "snd ` set (tbl t d1) \<subseteq> snd ` set (tbl t d) \<union>
      (if t = Brands then set (dropna (map brand df)) else {})"
    unfolding d1_def by (rule names_load_dim_sub [OF frame])
  have s2: "snd ` set (tbl t d2) \<subseteq> snd ` set (tbl t d1) \<union>
      (if t = MachineTypes then set (dropna (map machine_type df)) else {})"
    unfolding d2_def by (rule names_load_dim_sub [OF frame])
  have s3: "snd ` set (tbl t d3) \<subseteq> snd ` set (tbl t d2) \<union>
      (if t = Models then set (dropna (map model df)) else {})"
    unfolding d3_def by (rule names_load_dim_sub [OF frame])
  have s4: "snd ` set (tbl t d4) \<subseteq> snd ` set (tbl t d3) \<union>
      (if t = Languages then set (dropna (map language df)) else {})"
    unfolding d4_def by (rule names_load_dim_sub [OF frame])
  show ?thesis
    unfolding all by (rule chain4 [OF s4 s3 s2 s1]) (cases t; simp add: col_of_def)+
qed

lemma tbl_insert_book:
  "insert_book d k ttl ed loc bi mi ti li = Inr d' \<Longrightarrow> tbl t d' = tbl t d"
  by (cases t) (auto simp: insert_book_def split: option.splits if_splits)

lemma names_opt_get_id:
  assumes frame: "\<And>d t n t'. snd ` set (tbl t' (snd (gid d t n))) \<subseteq>
     snd ` set (tbl t' d) \<union> (if t' = t then set_option n else {})"
  shows "snd ` set (tbl t' (snd (if n \<noteq> None then gid d t n else (None, d)))) \<subseteq>
     snd ` set (tbl t' d) \<union> (if t' = t then set_option n else {})"
proof (cases n)
  case None
  then show ?thesis by simp
next
  case (Some a)
  have e: "(if n \<noteq> None then gid d t n else (None, d)) = gid d t n"
    using Some by simp
  show ?thesis
    unfolding e by (rule frame)
qed

lemma names_insert_row_sub:
  assumes frame: "\<And>d t n t'. snd ` set (tbl t' (snd (gid d t n))) \<subseteq>
     snd ` set (tbl t' d) \<union> (if t' = t then set_option n else {})"
    and ok: "insert_row gid r d = Inr d'"
  shows "snd ` set (tbl t d') \<subseteq> snd ` set (tbl t d) \<union> set_option (col_of t r)"
proof -
  define d1 where "d1 = snd (if brand r \<noteq> None then gid d Brands (brand r) else (None, d))"
  define d2 where "d2 = snd (if machine_type r \<noteq> None
      then gid d1 MachineTypes (machine_type r) else (None, d1))"
  define d3 where "d3 = snd (if model r \<noteq> None then gid d2 Models (model r) else (None, d2))"
  define d4 where "d4 = snd (if language r \<noteq> None
      then gid d3 Languages (language r) else (None, d3))"
  have "\<exists>bi mi ti li. insert_row gid r d =
      (case book_id r of None \<Rightarrow> Inl ValueError
       | Some k \<Rightarrow> insert_book d4 k (title r) (edition_year r) (location r) bi mi ti li)"
    unfolding insert_row_def Let_def case_prod_beta d4_def d3_def d2_def d1_def
    by (intro exI) (rule refl)
  then obtain k bi mi ti li where
    "insert_book d4 k (title r) (edition_year r) (location r) bi mi ti li = Inr d'"
    using ok by (cases "book_id r") auto
  then have last: "tbl t d' = tbl t d4"
    by (rule tbl_insert_book)
  have s1: "snd ` set (tbl t d1) \<subseteq> snd ` set (tbl t d) \<union>
      (if t = Brands then set_option (brand r) else {})"
    unfolding d1_def by (rule names_opt_get_id [OF frame])
  have s2: "snd ` set (tbl t d2) \<subseteq> snd ` set (tbl t d1) \<union>
      (if t = MachineTypes then set_option (machine_type r) else {})"
    unfolding d2_def by (rule names_opt_get_id [OF frame])
  have s3: "snd ` set (tbl t d3) \<subseteq> snd ` set (tbl t d2) \<union>
      (if t = Models then set_option (model r) else {})"
    unfolding d3_def by (rule names_opt_get_id [OF frame])
  have s4: "snd ` set (tbl t d4) \<subseteq> snd ` set (tbl t d3) \<union>
      (if t = Languages then set_option (language r) else {})"
    unfolding d4_def by (rule names_opt_get_id [OF frame])
  show ?thesis
    unfolding last by (rule chain4 [OF s4 s3 s2 s1]) (cases t; simp add: col_of_def)+
qed

lemma names_insert_rows_sub:
  assumes frame: "\<And>d t n t'. snd ` set (tbl t' (snd (gid d t n))) \<subseteq>
     snd ` set (tbl t' d) \<union> (if t' = t then set_option n else {})"
  shows "insert_rows gid df d = Inr d' \<Longrightarrow>
     snd ` set (tbl t d') \<subseteq> snd ` set (tbl t d) \<union> set (dropna (map (col_of t) df))"
proof (induction df arbitrary: d)
  case Nil
  then show ?case by simp
next
  case (Cons r rs)
  from Cons.prems obtain d1 where
    step: "insert_row gid r d = Inr d1" and rest: "insert_rows gid rs d1 = Inr d'"
    by (auto split: sum.splits)
  have s: "snd ` set (tbl t d1) \<subseteq> snd ` set (tbl t d) \<union> set_option (col_of t r)"
    by (rule names_insert_row_sub [OF frame step])
  have i: "snd ` set (tbl t d') \<subseteq> snd ` set (tbl t d1) \<union> set (dropna (map (col_of t) rs))"
    by (rule Cons.IH [OF rest])
  have c: "set (dropna (map (col_of t) (r # rs))) =
      set_option (col_of t r) \<union> set (dropna (map (col_of t) rs))"
    by (cases "col_of t r") (simp_all add: dropna_def)
  show ?case
    unfolding c by (rule chain2 [OF i s])
qed

lemma names_populate_replace:
  assumes frame: "\<And>d t n t'. snd ` set (tbl t' (snd (gid d t n))) \<subseteq>
     snd ` set (tbl t' d) \<union> (if t' = t then set_option n else {})"
  shows "snd ` set (tbl t (durable (snd (populate_replace gid c df)))) \<subseteq>
     set (dropna (map (col_of t) df))"
proof -
  have e: "tbl t empty_db = []"
    by (cases t) (simp_all add: empty_db_def)
  have l: "snd ` set (tbl t (load_dims gid df empty_db)) \<subseteq> set (dropna (map (col_of t) df))"
    using names_load_dims_sub [OF frame, of t df empty_db] by (simp add: e)
  show ?thesis
  proof (cases "insert_rows gid df (load_dims gid df empty_db)")
    case (Inl err)
    then show ?thesis
      using l by (simp add: populate_replace_def Let_def create_schema_def commit_def)
  next
    case (Inr d')
    have "snd ` set (tbl t d') \<subseteq> snd ` set (tbl t (load_dims gid df empty_db)) \<union>
        set (dropna (map (col_of t) df))"
      by (rule names_insert_rows_sub [OF frame Inr])
    then have "snd ` set (tbl t d') \<subseteq> set (dropna (map (col_of t) df))"
      using l by (rule chain1)
    then show ?thesis
      using Inr by (simp add: populate_replace_def Let_def create_schema_def commit_def)
  qed
qed

lemma clean_cell_not_nan: "clean_cell c \<noteq> Some ''nan''"
  by (simp add: clean_cell_def Let_def)

lemma clean_row_not_nan: "col_of t (clean_row r) \<noteq> Some ''nan''"
proof -
  have l: "fillna ''Unknown'' (clean_cell c) \<noteq> Some ''nan''" for c
    using clean_cell_not_nan [of c] by (cases "clean_cell c") (simp_all add: fillna_def)
  show ?thesis
    by (cases t) (simp_all add: col_of_def clean_row_def clean_cell_not_nan l)
qed

lemma cleaned_not_nan: "''nan'' \<notin> set (dropna (map (col_of t) (load_excel_to_df sheet)))"
  by (auto simp: set_dropna load_excel_to_df_def clean_row_not_nan [symmetric])

lemma left_join_names: "Some n \<in> set (left_join t fk) \<Longrightarrow> n \<in> snd ` set t"
proof (cases fk)
  case None
  then show "Some n \<in> set (left_join t fk) \<Longrightarrow> ?thesis"
    by (simp add: left_join_def)
next
  case (Some i)
  assume "Some n \<in> set (left_join t fk)"
  then have "Some n \<in> set (map (\<lambda>r. Some (snd r)) (filter (\<lambda>r. fst r = i) t))"
    using Some by (cases "filter (\<lambda>r. fst r = i) t") (simp_all add: left_join_def)
  then show ?thesis
    by auto
qed

lemma load_db_to_df_names:
  assumes "r \<in> set (load_db_to_df d)"
  shows "(v_brand r = Some n \<longrightarrow> n \<in> snd ` set (brands d)) \<and>
         (v_model r = Some n \<longrightarrow> n \<in> snd ` set (models d)) \<and>
         (v_machine_type r = Some n \<longrightarrow> n \<in> snd ` set (machine_types d)) \<and>
         (v_language r = Some n \<longrightarrow> n \<in> snd ` set (languages d))"
proof -
  from assms obtain b where "r \<in> set (join_book d b)"
    by (auto simp: load_db_to_df_def)
  then have "v_brand r \<in> set (left_join (brands d) (b_brand_id b)) \<and>
      v_model r \<in> set (left_join (models d) (b_model_id b)) \<and>
      v_machine_type r \<in> set (left_join (machine_types d) (b_machine_type_id b)) \<and>
      v_language r \<in> set (left_join (languages d) (b_language_id b))"
    by (auto simp: join_book_def)
  then show ?thesis
    using left_join_names [of n] by metis
qed

text \<open>
  Claim C7 at a brand cell that holds \<open>nan\<close> between two spaces:
  \<open>load_excel_to_df\<close> of \<open>build_installer.py\<close> trims the cell and replaces
  nothing, so the import creates a brand named \<open>nan\<close>, which the book references and
  the read view shows. \<open>app_one_tab_pro.py\<close> cleans the same cell to null and creates
  no brand.
\<close>

theorem bi_keeps_nan_text:
  "map brand (bi_load_excel_to_df nan_sheet) = [Some ''nan''] \<and>
   map brand (load_excel_to_df nan_sheet) = [None] \<and>
   brands (durable (snd (bi_populate_replace fresh_conn (bi_load_excel_to_df nan_sheet))))
     = [(1, ''nan'')] \<and>
   map b_brand_id
     (books (durable (snd (bi_populate_replace fresh_conn (bi_load_excel_to_df nan_sheet)))))
     = [Some 1] \<and>
   brands (durable (snd (app_populate_replace fresh_conn (load_excel_to_df nan_sheet)))) = [] \<and>
   map v_brand (fst (bi_load_db_to_df None
     (durable (snd (bi_populate_replace fresh_conn (bi_load_excel_to_df nan_sheet))))))
     = [Some ''nan'']"
  by (simp add: bi_populate_replace_def bi_transaction_def bi_insert_dims_def insert_many_def
      bi_book_data_def name_ids_def na_str_def insert_or_replace_book_def rollback_def
      bi_load_excel_to_df_def bi_clean_row_def bi_clean_cell_def strip_def isspace_def
      fillna_def nan_sheet_def fresh_conn_def create_schema_def commit_def empty_db_def
      dropna_def unique_def insert_or_ignore_def next_rowid_def fk_ok_def Let_def
      bi_load_db_to_df_def bi_query_def load_db_to_df_def join_book_def left_join_def
      coalesce_def app_populate_replace_def populate_replace_def load_excel_to_df_def
      clean_row_def clean_cell_def astype_str_def load_dims_def load_dim_def app_get_id_def
      select_id_def insert_row_def insert_book_def)

text \<open>
  \<open>app_one_tab_pro.py\<close> and \<open>kaveh_books1.py\<close> do replace it: a cell whose
  stringified, trimmed value is \<open>nan\<close> is cleaned to null; whatever the sheet and the
  prior store, and whether the import returns or raises, no dimension table holds the name
  \<open>nan\<close> afterwards, and no row read back has it as a dimension name.
\<close>

lemma nan_is_absent:
  "(strip (astype_str c) = ''nan'' \<longrightarrow> clean_cell c = None) \<and>
   ''nan'' \<notin> snd ` set (tbl t (durable (snd
       (app_populate_replace cn (load_excel_to_df sheet))))) \<and>
   ''nan'' \<notin> snd ` set (tbl t (durable (snd
       (kaveh_populate_replace cn (load_excel_to_df sheet))))) \<and>
   (r \<in> set (load_db_to_df (durable (snd (app_populate_replace cn (load_excel_to_df sheet)))))
      \<longrightarrow> v_brand r \<noteq> Some ''nan'' \<and> v_model r \<noteq> Some ''nan'' \<and>
           v_machine_type r \<noteq> Some ''nan'' \<and> v_language r \<noteq> Some ''nan'')"
proof (intro conjI impI)
  show "clean_cell c = None" if "strip (astype_str c) = ''nan''"
    using that by (simp add: clean_cell_def)
  have app: "''nan'' \<notin> snd ` set (tbl t' (durable (snd
      (app_populate_replace cn (load_excel_to_df sheet)))))" for t'
    unfolding app_populate_replace_def
    by (rule not_in_subset [OF names_populate_replace [OF names_app_get_id] cleaned_not_nan])
  show "''nan'' \<notin> snd ` set (tbl t (durable (snd
      (app_populate_replace cn (load_excel_to_df sheet)))))"
    by (rule app)
  show "''nan'' \<notin> snd ` set (tbl t (durable (snd
      (kaveh_populate_replace cn (load_excel_to_df sheet)))))"
    unfolding kaveh_populate_replace_def
    by (rule not_in_subset [OF names_populate_replace [OF names_kaveh_get_id] cleaned_not_nan])
  assume r: "r \<in> set (load_db_to_df (durable (snd
      (app_populate_replace cn (load_excel_to_df sheet)))))"
  note n = load_db_to_df_names [OF r, of "''nan''"]
  show "v_brand r \<noteq> Some ''nan''"
    using n app [of Brands] by auto
  show "v_model r \<noteq> Some ''nan''"
    using n app [of Models] by auto
  show "v_machine_type r \<noteq> Some ''nan''"
    using n app [of MachineTypes] by auto
  show "v_language r \<noteq> Some ''nan''"
    using n app [of Languages] by auto
qed

end
